theory Spec2Isabelle
  imports Main "HOL-Library.Sublist"
begin

section \<open>Text\<close>

text \<open>
  A Python \<open>str\<close> is a sequence of Unicode code points: \<open>len\<close>, slicing, \<open>strip\<close> and
  the regular expressions of the program all count code points. A character is therefore
  its code point (a natural number) and a string the list of them; \<open>ascii\<close> writes the
  ASCII literals of the source.
\<close>

type_synonym uchar = nat
type_synonym ustr = "nat list"

definition ascii :: "string \<Rightarrow> ustr" where
  "ascii s = map of_char s"

text \<open>
  \<open>str.strip()\<close> without argument and the class \<open>\s\<close> of \<open>re\<close> (on \<open>str\<close> patterns) use
  the same test of the interpreter: the ASCII controls 9-13 and 28-31, the blank, and the
  Unicode white space U+0085, U+00A0, U+1680, U+2000-U+200A, U+2028, U+2029, U+202F,
  U+205F, U+3000.
\<close>

definition isspace :: "uchar \<Rightarrow> bool" where
  "isspace c \<longleftrightarrow>
     (9 \<le> c \<and> c \<le> 13) \<or> (28 \<le> c \<and> c \<le> 32) \<or> c = 0x85 \<or> c = 0xA0 \<or> c = 0x1680 \<or>
     (0x2000 \<le> c \<and> c \<le> 0x200A) \<or> c = 0x2028 \<or> c = 0x2029 \<or> c = 0x202F \<or>
     c = 0x205F \<or> c = 0x3000"

definition lstrip :: "ustr \<Rightarrow> ustr" where
  "lstrip s = dropWhile isspace s"

definition rstrip :: "ustr \<Rightarrow> ustr" where
  "rstrip s = rev (dropWhile isspace (rev s))"

definition strip :: "ustr \<Rightarrow> ustr" where
  "strip s = rstrip (lstrip s)"

text \<open>
  \<open>str.lower()\<close>. The program only compares lowered text with ASCII constants
  (\<open>"none"\<close>, \<open>"n/a"\<close>, \<open>"na"\<close>, \<open>"safe"\<close>, \<open>"misleading"\<close>, \<open>"dangerous"\<close>). The only
  characters outside \<open>A-Z\<close> whose lower case contains an ASCII letter are U+212A (to \<open>k\<close>)
  and U+0130 (to \<open>i\<close> followed by U+0307), and neither can take part in a match with one of
  these constants; so lowering \<open>A-Z\<close> alone decides every comparison as the program does.
\<close>

definition lower_char :: "uchar \<Rightarrow> uchar" where
  "lower_char c = (if 65 \<le> c \<and> c \<le> 90 then c + 32 else c)"

definition lower :: "ustr \<Rightarrow> ustr" where
  "lower s = map lower_char s"

text \<open>\<open>needle in haystack\<close> on strings.\<close>

fun contains :: "ustr \<Rightarrow> ustr \<Rightarrow> bool" where
  "contains needle [] = (needle = [])"
| "contains needle (c # cs) = (prefix needle (c # cs) \<or> contains needle cs)"

text \<open>\<open>a or b\<close> on strings: \<open>a\<close> unless it is empty.\<close>

definition str_or :: "ustr \<Rightarrow> ustr \<Rightarrow> ustr" where
  "str_or a b = (if a = [] then b else a)"

text \<open>The exceptions of the program.\<close>

datatype error =
    ValueError | TypeError | AttributeError | URLError | ParseError | UnicodeEncodeError

section \<open>medgemma\_analyzer.py: the score\<close>

text \<open>
  \<open>\d\<close> matches every character the interpreter's Unicode table classes as a decimal
  digit, and \<open>int\<close> reads each with the value the same table gives it. The table belongs
  to the interpreter, not to the repository: it is a parameter \<open>dec\<close> (\<open>dec c = Some d\<close>
  when \<open>c\<close> is a decimal digit of value \<open>d\<close>). \<open>ascii_decimal\<close> is its ASCII part, on which
  every version of the table agrees.
\<close>

type_synonym decimal_table = "uchar \<Rightarrow> nat option"

definition ascii_decimal :: decimal_table where
  "ascii_decimal c = (if 48 \<le> c \<and> c \<le> 57 then Some (c - 48) else None)"

text \<open>
  \<open>re.findall(r'\d+', s)\<close>: the maximal runs of decimal digits, left to right. \<open>cur\<close> is the
  run being read.
\<close>

fun digit_runs :: "decimal_table \<Rightarrow> ustr \<Rightarrow> ustr \<Rightarrow> ustr list" where
  "digit_runs dec cur [] = (if cur = [] then [] else [cur])"
| "digit_runs dec cur (c # cs) =
     (if dec c \<noteq> None then digit_runs dec (cur @ [c]) cs
      else (if cur = [] then [] else [cur]) @ digit_runs dec [] cs)"

definition findall_digits :: "decimal_table \<Rightarrow> ustr \<Rightarrow> ustr list" where
  "findall_digits dec s = digit_runs dec [] s"

text \<open>
  \<open>int(token)\<close> raises \<open>ValueError\<close> on a string that is not a number, and also on a
  number written with more digits than the interpreter converts: the limit is 4300 digits
  (\<open>sys.int_info.default_max_str_digits\<close>), leading zeros counted, and the program does
  not change it. On a non-empty string of at most 4300 decimal digits \<open>int\<close> is the
  number they write in base ten (the model reads no other strings as numbers: the program
  passes none).
\<close>

definition max_str_digits :: nat where
  "max_str_digits = 4300"

definition decimal_value :: "decimal_table \<Rightarrow> ustr \<Rightarrow> int" where
  "decimal_value dec tok = foldl (\<lambda>a c. 10 * a + (case dec c of Some d \<Rightarrow> int d | None \<Rightarrow> 0)) 0 tok"

definition py_int :: "decimal_table \<Rightarrow> ustr \<Rightarrow> error + int" where
  "py_int dec tok =
     (if tok = [] \<or> list_ex (\<lambda>c. dec c = None) tok \<or> max_str_digits < length tok
      then Inl ValueError
      else Inr (decimal_value dec tok))"

text \<open>The loop of \<open>extract_score\<close> over the tokens.\<close>

fun first_in_range :: "decimal_table \<Rightarrow> ustr list \<Rightarrow> error + int" where
  "first_in_range dec [] = Inr 50"
| "first_in_range dec (token # rest) =
     (case py_int dec token of
        Inl e \<Rightarrow> Inl e
      | Inr val \<Rightarrow> if 0 \<le> val \<and> val \<le> 100 then Inr val else first_in_range dec rest)"

definition extract_score :: "decimal_table \<Rightarrow> ustr \<Rightarrow> error + int" where
  "extract_score dec score_text = first_in_range dec (findall_digits dec score_text)"

section \<open>medgemma\_analyzer.py: sections and lists\<close>

text \<open>
  \<open>extract_section\<close> searches \<open>\[tag\]\s*(.*?)(?=\[[^\]]+\]|$)\<close> with \<open>re.DOTALL\<close>, the tag
  escaped. Once the literal \<open>[tag]\<close> has matched, the rest of the pattern always matches
  (the lazy group can grow up to the end of the text), so the match that \<open>re.search\<close>
  returns starts at the leftmost occurrence of \<open>[tag]\<close>: \<open>after_tag\<close> is the text behind it.
\<close>

definition LBR :: uchar where "LBR = 0x5B"
definition RBR :: uchar where "RBR = 0x5D"

fun after_tag :: "ustr \<Rightarrow> ustr \<Rightarrow> ustr option" where
  "after_tag tag [] = None"
| "after_tag tag (c # cs) =
     (if prefix (LBR # tag @ [RBR]) (c # cs) then Some (drop (length tag + 2) (c # cs))
      else after_tag tag cs)"

text \<open>
  The lookahead \<open>\[[^\]]+\]\<close> at the head of a text: an opening bracket, at least one
  character that is not a closing bracket, and a closing bracket further on.
\<close>

fun bracket_here :: "ustr \<Rightarrow> bool" where
  "bracket_here (c # d # cs) = (c = LBR \<and> d \<noteq> RBR \<and> RBR \<in> set cs)"
| "bracket_here _ = False"

text \<open>
  \<open>$\<close> without \<open>re.MULTILINE\<close>: the end of the text, or the place before a line feed that
  ends the text.
\<close>

definition at_end :: "ustr \<Rightarrow> bool" where
  "at_end s \<longleftrightarrow> s = [] \<or> s = [10]"

text \<open>The lazy group \<open>(.*?)\<close>: the shortest prefix behind which the lookahead holds.\<close>

fun lazy_group :: "ustr \<Rightarrow> ustr" where
  "lazy_group [] = []"
| "lazy_group (c # cs) =
     (if bracket_here (c # cs) \<or> at_end (c # cs) then [] else c # lazy_group cs)"

definition extract_section :: "ustr \<Rightarrow> ustr \<Rightarrow> ustr" where
  "extract_section text tag =
     (case after_tag tag text of
        None \<Rightarrow> []
      | Some rest \<Rightarrow> strip (lazy_group (dropWhile isspace rest)))"

text \<open>
  \<open>str.splitlines()\<close>: a line ends at \<open>\n\<close>, \<open>\r\<close>, \<open>\r\n\<close>, \<open>\v\<close>, \<open>\f\<close>, \<open>\x1c\<close>, \<open>\x1d\<close>,
  \<open>\x1e\<close>, \<open>\x85\<close>, U+2028 or U+2029; the line ends are dropped, and a text that ends with
  one has no empty last line. \<open>cur\<close> is the line being read.
\<close>

definition is_linebreak :: "uchar \<Rightarrow> bool" where
  "is_linebreak c \<longleftrightarrow>
     (10 \<le> c \<and> c \<le> 13) \<or> (28 \<le> c \<and> c \<le> 30) \<or> c = 0x85 \<or> c = 0x2028 \<or> c = 0x2029"

fun lines_from :: "ustr \<Rightarrow> ustr \<Rightarrow> ustr list" where
  "lines_from cur [] = (if cur = [] then [] else [cur])"
| "lines_from cur [c] = (if is_linebreak c then [cur] else [cur @ [c]])"
| "lines_from cur (c # d # cs) =
     (if c = 13 \<and> d = 10 then cur # lines_from [] cs
      else if is_linebreak c then cur # lines_from [] (d # cs)
      else lines_from (cur @ [c]) (d # cs))"

definition splitlines :: "ustr \<Rightarrow> ustr list" where
  "splitlines s = lines_from [] s"

text \<open>
  The bullet markers of \<open>extract_list_items\<close>: \<open>-\<close>, U+2022, U+00B7 and \<open>*\<close>;
  \<open>lstrip\<close> with the characters \<open>'-', U+2022, U+00B7, '*', ' '\<close> removes every leading
  marker and blank.
\<close>

definition bullets :: "uchar list" where
  "bullets = [0x2D, 0x2022, 0xB7, 0x2A]"

definition startswith_bullet :: "ustr \<Rightarrow> bool" where
  "startswith_bullet line = (case line of [] \<Rightarrow> False | c # _ \<Rightarrow> c \<in> set bullets)"

definition lstrip_bullets :: "ustr \<Rightarrow> ustr" where
  "lstrip_bullets line = dropWhile (\<lambda>c. c \<in> set (bullets @ [0x20])) line"

definition sentinels :: "ustr list" where
  "sentinels = [ascii ''none'', ascii ''n/a'', ascii ''na'']"

text \<open>The loop over the lines; the items are appended in the order of the lines.\<close>

fun bulleted_items :: "ustr list \<Rightarrow> ustr list" where
  "bulleted_items [] = []"
| "bulleted_items (l # ls) =
     (let line = strip l in
      if startswith_bullet line then
        (let cleaned = strip (lstrip_bullets line) in
         if cleaned \<noteq> [] \<and> lower cleaned \<notin> set sentinels then cleaned # bulleted_items ls
         else bulleted_items ls)
      else bulleted_items ls)"

definition extract_list_items :: "ustr \<Rightarrow> ustr list" where
  "extract_list_items section_text =
     (let items = bulleted_items (splitlines section_text) in
      if items = [] \<and> strip section_text \<noteq> [] \<and> lower (strip section_text) \<notin> set sentinels
      then items @ [strip section_text]
      else items)"

section \<open>medgemma\_analyzer.py: the result record\<close>

text \<open>
  The dictionary that \<open>parse_model_output\<close> returns, one field for each key. The key
  \<open>_parse_error\<close> is only set on the failure path: \<open>parse_error\<close> is \<open>None\<close> where the
  dictionary has no such key. The caller reads it with \<open>result.get("_parse_error")\<close> and
  tests the truth of what it gets: \<open>parse_error_flag\<close>.
\<close>

record analysis_result =
  credibility_score :: int
  risk_level :: ustr
  risk_reason :: ustr
  medical_accuracy :: ustr
  logical_fallacies :: "ustr list"
  evidence_summary :: ustr
  key_misconceptions :: "ustr list"
  rebuttal :: ustr
  recommendation :: ustr
  parse_error :: "bool option"
  raw_output :: ustr

definition parse_error_flag :: "analysis_result \<Rightarrow> bool" where
  "parse_error_flag r \<longleftrightarrow> parse_error r = Some True"

definition failure_result :: analysis_result where
  "failure_result =
     \<lparr> credibility_score = 0,
       risk_level = ascii ''Misleading'',
       risk_reason = ascii ''Model produced no output; check HF token and GPU memory.'',
       medical_accuracy = ascii ''Analysis failed; please try again.'',
       logical_fallacies = [],
       evidence_summary = ascii ''Please verify against medical literature manually.'',
       key_misconceptions = [],
       rebuttal = ascii ''This claim needs further verification; consult a healthcare professional.'',
       recommendation = ascii ''For health-related information, consult a qualified healthcare provider.'',
       parse_error = Some True,
       raw_output = ascii ''(empty)'' \<rparr>"

text \<open>The loop that resolves the risk level: the first label, in the order given, that
  the lowered text contains; \<open>"Misleading"\<close> when there is none.\<close>

fun resolve_risk :: "ustr list \<Rightarrow> ustr \<Rightarrow> ustr" where
  "resolve_risk [] risk_level_text = ascii ''Misleading''"
| "resolve_risk (level # rest) risk_level_text =
     (if contains (lower level) (lower risk_level_text) then level
      else resolve_risk rest risk_level_text)"

definition risk_levels :: "ustr list" where
  "risk_levels = [ascii ''Safe'', ascii ''Misleading'', ascii ''Dangerous'']"

definition parse_model_output :: "decimal_table \<Rightarrow> ustr \<Rightarrow> error + analysis_result" where
  "parse_model_output dec raw_text =
     (if raw_text = [] \<or> strip raw_text = [] then Inr failure_result
      else
        let score_text = extract_section raw_text (ascii ''Credibility Score'');
            risk_level_text = extract_section raw_text (ascii ''Risk Level'');
            reason = extract_section raw_text (ascii ''Risk Reason'');
            medical_acc = extract_section raw_text (ascii ''Medical Accuracy'');
            fallacies_text = extract_section raw_text (ascii ''Logical Fallacies'');
            evidence = extract_section raw_text (ascii ''Evidence Summary'');
            misconceptions = extract_section raw_text (ascii ''Key Misconceptions'');
            rebuttal_text = extract_section raw_text (ascii ''Scientific Rebuttal'');
            recommendation_text = extract_section raw_text (ascii ''Expert Recommendation'');
            level = resolve_risk risk_levels risk_level_text
        in case extract_score dec score_text of
             Inl e \<Rightarrow> Inl e
           | Inr score \<Rightarrow>
               Inr \<lparr> credibility_score = score,
                     risk_level = level,
                     risk_reason = str_or reason (ascii ''Not provided''),
                     medical_accuracy = str_or medical_acc (take 500 raw_text),
                     logical_fallacies = extract_list_items fallacies_text,
                     evidence_summary = str_or evidence (ascii ''No evidence description found''),
                     key_misconceptions = extract_list_items misconceptions,
                     rebuttal = str_or rebuttal_text
                       (ascii ''Consult a healthcare professional for more information.''),
                     recommendation = str_or recommendation_text
                       (ascii ''For health-related information, consult a qualified healthcare provider.''),
                     parse_error = None,
                     raw_output = raw_text \<rparr>)"

text \<open>
  The inputs on which no conversion can exceed the limit of \<open>int\<close>: every run of digits
  of the text has at most 4300 digits. For \<open>parse_model_output\<close> the text that counts is
  the section of the score.
\<close>

definition digits_bounded :: "decimal_table \<Rightarrow> ustr \<Rightarrow> bool" where
  "digits_bounded dec s \<longleftrightarrow> list_all (\<lambda>t. length t \<le> max_str_digits) (findall_digits dec s)"

definition score_digits_bounded :: "decimal_table \<Rightarrow> ustr \<Rightarrow> bool" where
  "score_digits_bounded dec raw_text \<longleftrightarrow>
     digits_bounded dec (extract_section raw_text (ascii ''Credibility Score''))"

section \<open>medgemma\_analyzer.py: the stream\<close>

text \<open>
  \<open>build_messages\<close>: the system message and the user message, which holds the claim
  between the two fixed parts of the prompt. U+3010 and U+3011 are the brackets around
  \<open>Claim to verify\<close>.
\<close>

definition system_text :: ustr where
  "system_text =
     ascii ''You are an expert medical fact-checker and practicing physician. '' @
     ascii ''Your task is to analyze health claims and identify medical misinformation. '' @
     ascii ''You must always respond in English. '' @
     ascii ''Use professional but accessible language for the general public.''"

definition user_head :: ustr where
  "user_head =
     ascii ''Perform a professional medical fact-check on the following health claim:'' @
     [10, 10, 0x3010] @ ascii ''Claim to verify'' @ [0x3011, 10]"

definition user_tail :: ustr where
  "user_tail =
     [10, 10] @ ascii ''Respond in the following format (keep each bracketed tag):'' @ [10, 10] @
     ascii ''[Credibility Score] An integer 0-100 (0=completely false, 100=fully credible)'' @
     [10, 10] @
     ascii ''[Risk Level] Exactly one of: Safe, Misleading, Dangerous'' @ [10, 10] @
     ascii ''[Risk Reason] 1-2 sentences explaining why this risk level was assigned'' @ [10, 10] @
     ascii ''[Medical Accuracy] Assess the claim'' @ [0x27] @
     ascii ''s accuracy from a medical science perspective (2-4 sentences)'' @ [10, 10] @
     ascii ''[Logical Fallacies] List any logical errors in the claim (each item starting with '' @
     [0x22] @ ascii ''-'' @ [0x22] @ ascii '', or '' @ [0x22] @ ascii ''None'' @ [0x22] @
     ascii '' if none)'' @ [10, 10] @
     ascii ''[Evidence Summary] How current medical evidence supports or contradicts the claim (2-3 sentences)'' @
     [10, 10] @
     ascii ''[Key Misconceptions] The most important misconceptions in the claim (each item starting with '' @
     [0x22] @ ascii ''-'' @ [0x22] @ ascii '', or '' @ [0x22] @ ascii ''None'' @ [0x22] @
     ascii '' if none)'' @ [10, 10] @
     ascii ''[Scientific Rebuttal] A science-based rebuttal suitable for social media (100-150 words, clear language)'' @
     [10, 10] @
     ascii ''[Expert Recommendation] Practical health advice for the general user (1-2 sentences)''"

definition build_messages :: "ustr \<Rightarrow> (ustr \<times> ustr) list" where
  "build_messages health_claim =
     [(ascii ''system'', system_text),
      (ascii ''user'', user_head @ health_claim @ user_tail)]"

text \<open>
  \<open>analyze_health_claim_stream\<close> is a generator: its body runs when the caller iterates
  it, and the model is the run of the body to its end, as \<open>st.write_stream\<close> drives it.
  The run is the list of what it does, in order, and the exception that ends it, if any.
  The fragments that the streamer hands over are the generation's, a parameter; a failure
  of the model or of the generation is outside the model.
\<close>

datatype event =
    LoadModel
  | ApplyChatTemplate "(ustr \<times> ustr) list"
  | CreateStreamer
  | ThreadStart
  | Yield ustr
  | ThreadJoin

definition analyze_health_claim_stream :: "ustr list \<Rightarrow> ustr \<Rightarrow> event list \<times> error option" where
  "analyze_health_claim_stream fragments health_claim =
     (if health_claim = [] \<or> strip health_claim = [] then ([], Some ValueError)
      else
        ([LoadModel, ApplyChatTemplate (build_messages (strip health_claim)), CreateStreamer,
          ThreadStart] @ map Yield fragments @ [ThreadJoin],
         None))"

section \<open>pubmed\_search.py: element trees\<close>

text \<open>
  An element of \<open>xml.etree.ElementTree\<close>: its tag, its text (\<open>None\<close> when it has none), its
  children in document order, and its tail, the text between its end and the next sibling.
\<close>

datatype xml = Element (el_tag: ustr) (el_text: "ustr option") (el_children: "xml list")
  (el_tail: "ustr option")

text \<open>\<open>e.iter()\<close> without \<open>e\<close> itself: the descendants in document order.\<close>

fun descendants :: "xml \<Rightarrow> xml list" where
  "descendants (Element t x cs ta) = concat (map (\<lambda>c. c # descendants c) cs)"

text \<open>\<open>"".join(e.itertext())\<close>: the text of the element and of everything below it, the
  tails of the elements below it included.\<close>

fun itertext :: "xml \<Rightarrow> ustr" where
  "itertext (Element t x cs ta) =
     (case x of None \<Rightarrow> [] | Some s \<Rightarrow> s) @
     concat (map (\<lambda>c. itertext c @ (case el_tail c of None \<Rightarrow> [] | Some s \<Rightarrow> s)) cs)"

text \<open>
  The paths of the program: \<open>".//name"\<close> selects the descendants of that tag, \<open>"name"\<close> the
  children, and \<open>".//a/b"\<close> the children \<open>b\<close> of the descendants \<open>a\<close>. \<open>find\<close> is the first
  element of \<open>findall\<close>; \<open>findtext\<close> is the default when there is none, and otherwise its
  text, the empty string when the element has no text.
\<close>

definition findall_desc :: "ustr \<Rightarrow> xml \<Rightarrow> xml list" where
  "findall_desc name e = filter (\<lambda>x. el_tag x = name) (descendants e)"

definition findall_child :: "ustr \<Rightarrow> xml \<Rightarrow> xml list" where
  "findall_child name e = filter (\<lambda>x. el_tag x = name) (el_children e)"

definition findall_desc_child :: "ustr \<Rightarrow> ustr \<Rightarrow> xml \<Rightarrow> xml list" where
  "findall_desc_child a b e = concat (map (findall_child b) (findall_desc a e))"

definition findtext :: "xml list \<Rightarrow> ustr option \<Rightarrow> ustr option" where
  "findtext found dflt =
     (case found of
        [] \<Rightarrow> dflt
      | x # _ \<Rightarrow> (case el_text x of None \<Rightarrow> Some [] | Some s \<Rightarrow> Some s))"

text \<open>The truth of an optional string: \<open>None\<close> and the empty string are false.\<close>

definition truthy_str :: "ustr option \<Rightarrow> bool" where
  "truthy_str v \<longleftrightarrow> (case v of None \<Rightarrow> False | Some s \<Rightarrow> s \<noteq> [])"

definition str_of :: "ustr option \<Rightarrow> ustr" where
  "str_of v = (case v of None \<Rightarrow> [] | Some s \<Rightarrow> s)"

text \<open>\<open>sep.join(parts)\<close>.\<close>

fun join :: "ustr \<Rightarrow> ustr list \<Rightarrow> ustr" where
  "join sep [] = []"
| "join sep [p] = p"
| "join sep (p # q # ps) = p @ sep @ join sep (q # ps)"

section \<open>pubmed\_search.py: one record\<close>

text \<open>
  The dictionary of one article. \<open>pmid\<close> is \<open>None\<close> when the \<open>PMID\<close> element is there and
  has no text (the program stores the \<open>None\<close> it reads).
\<close>

record article =
  title :: ustr
  authors :: ustr
  journal :: ustr
  year :: ustr
  pmid :: "ustr option"
  abstract :: ustr
  url :: ustr

text \<open>\<open>author.findtext("LastName", "")\<close> and \<open>author.findtext("Initials", "")\<close>.\<close>

definition last_name_of :: "xml \<Rightarrow> ustr" where
  "last_name_of author = str_of (findtext (findall_child (ascii ''LastName'') author) (Some []))"

definition initials_of :: "xml \<Rightarrow> ustr" where
  "initials_of author = str_of (findtext (findall_child (ascii ''Initials'') author) (Some []))"

text \<open>The loop over the first three \<open>Author\<close> elements.\<close>

fun author_names :: "xml list \<Rightarrow> ustr list" where
  "author_names [] = []"
| "author_names (author # rest) =
     (let last_name = last_name_of author; initials = initials_of author
      in if last_name \<noteq> [] then strip (last_name @ ascii '' '' @ initials) # author_names rest
         else author_names rest)"

definition article_authors :: "xml \<Rightarrow> ustr list" where
  "article_authors art =
     author_names (take 3 (findall_desc (ascii ''Author'') art)) @
     (if length (findall_desc (ascii ''Author'') art) > 3 then [ascii ''et al.''] else [])"

text \<open>
  What the body of the \<open>try\<close> does with a value that may be \<open>None\<close>: \<open>find\<close> gives the
  first element found or \<open>None\<close>; reading \<open>.text\<close> or \<open>.itertext()\<close> of \<open>None\<close> raises
  \<open>AttributeError\<close>, and slicing \<open>None\<close> raises \<open>TypeError\<close>.
\<close>

definition find_first :: "xml list \<Rightarrow> xml option" where
  "find_first found = (case found of [] \<Rightarrow> None | el # _ \<Rightarrow> Some el)"

definition attr_text :: "xml option \<Rightarrow> error + ustr option" where
  "attr_text el = (case el of None \<Rightarrow> Inl AttributeError | Some e \<Rightarrow> Inr (el_text e))"

definition joined_itertext :: "xml option \<Rightarrow> error + ustr" where
  "joined_itertext el = (case el of None \<Rightarrow> Inl AttributeError | Some e \<Rightarrow> Inr (itertext e))"

definition slice_to :: "nat \<Rightarrow> ustr option \<Rightarrow> error + ustr" where
  "slice_to n v = (case v of None \<Rightarrow> Inl TypeError | Some s \<Rightarrow> Inr (take n s))"

text \<open>
  The body of the \<open>try\<close> for one \<open>PubmedArticle\<close>, in the order of the source: the two
  assignments to \<open>title\<close> (the first is overwritten), the authors, the journal, the year
  (\<open>a or b[:4] or "N/A"\<close> evaluates \<open>b[:4]\<close> only when \<open>a\<close> is false), the identifier, the
  abstract and the dictionary. An exception raised on the way is the result.
\<close>

definition parse_article :: "xml \<Rightarrow> error + article" where
  "parse_article art =
     (let title_el = find_first (findall_desc (ascii ''ArticleTitle'') art) in
      case (if title_el \<noteq> None then attr_text title_el else Inr (Some (ascii ''N/A''))) of
        Inl e \<Rightarrow> Inl e
      | Inr title_first \<Rightarrow>
     (case (if title_el \<noteq> None then joined_itertext title_el else Inr (ascii ''N/A'')) of
        Inl e \<Rightarrow> Inl e
      | Inr title_text \<Rightarrow>
     (let names = article_authors art;
          journal_text = str_of (findtext
            (findall_desc_child (ascii ''Journal'') (ascii ''Title'') art)
            (Some (ascii ''Unknown Journal'')));
          year1 = findtext (findall_desc_child (ascii ''PubDate'') (ascii ''Year'') art) None in
      case (if truthy_str year1 then Inr (str_of year1)
            else (case slice_to 4 (findtext
                         (findall_desc_child (ascii ''PubDate'') (ascii ''MedlineDate'') art)
                         (Some [])) of
                    Inl e \<Rightarrow> Inl e
                  | Inr year2 \<Rightarrow> Inr (if year2 \<noteq> [] then year2 else ascii ''N/A''))) of
        Inl e \<Rightarrow> Inl e
      | Inr year_text \<Rightarrow>
     (let pmid_el = find_first (findall_desc (ascii ''PMID'') art) in
      case (if pmid_el \<noteq> None then attr_text pmid_el else Inr (Some [])) of
        Inl e \<Rightarrow> Inl e
      | Inr pmid_text \<Rightarrow>
     (let abstract300 = take 300
            (join (ascii '' '') (map itertext (findall_desc (ascii ''AbstractText'') art)));
          abstract_text = (if length abstract300 = 300 then abstract300 @ ascii ''...''
                           else abstract300)
      in Inr \<lparr> title = title_text,
           authors = (if names \<noteq> [] then join (ascii '', '') names else ascii ''Unknown''),
           journal = journal_text,
           year = year_text,
           pmid = pmid_text,
           abstract = abstract_text,
           url = (if truthy_str pmid_text
                  then ascii ''https://pubmed.ncbi.nlm.nih.gov/'' @ str_of pmid_text @ ascii ''/''
                  else []) \<rparr>)))))"

section \<open>pubmed\_search.py: the batch\<close>

text \<open>
  The loop over the articles: \<open>try\<close> the body on an article, append its dictionary to the
  results, and on any exception \<open>continue\<close> with the next article. The body is a
  parameter of the loop, so that what the loop does with a body that raises can be stated.
\<close>

fun parse_records :: "(xml \<Rightarrow> error + article) \<Rightarrow> xml list \<Rightarrow> article list" where
  "parse_records body [] = []"
| "parse_records body (art # rest) =
     (case body art of
        Inl e \<Rightarrow> parse_records body rest
      | Inr entry \<Rightarrow> entry # parse_records body rest)"

text \<open>
  \<open>parse_pubmed_xml\<close> receives bytes and gives them to \<open>ET.fromstring\<close>. The parser is the
  library's: the model takes what it makes of the bytes, the root element or the
  exception it raises. \<open>ParseError\<close> is caught and gives the empty list; the \<open>except\<close> names
  no other exception.
\<close>

definition parse_pubmed_xml :: "error + xml \<Rightarrow> error + article list" where
  "parse_pubmed_xml xml_data =
     (case xml_data of
        Inl e \<Rightarrow> (if e = ParseError then Inr [] else Inl e)
      | Inr root \<Rightarrow>
          Inr (parse_records parse_article (findall_desc (ascii ''PubmedArticle'') root)))"

section \<open>pubmed\_search.py: the two-phase search\<close>












section \<open>Example inputs\<close>

text \<open>
  Element trees for the examples: \<open>leaf\<close> is an element with a text and no children,
  \<open>node\<close> one with children and no text. \<open>example_batch\<close> is a response with two
  articles, the second without \<open>ArticleTitle\<close>; \<open>good_record\<close> and \<open>untitled_record\<close> are
  the dictionaries the program makes of them.
\<close>

definition leaf :: "string \<Rightarrow> string \<Rightarrow> xml" where
  "leaf name s = Element (ascii name) (Some (ascii s)) [] None"

definition node :: "string \<Rightarrow> xml list \<Rightarrow> xml" where
  "node name cs = Element (ascii name) None cs None"

definition good_article :: xml where
  "good_article =
     node ''PubmedArticle''
       [node ''MedlineCitation''
          [leaf ''PMID'' ''101'',
           node ''Article''
             [node ''Journal'' [leaf ''Title'' ''The Journal''],
              leaf ''ArticleTitle'' ''Water and health'',
              node ''AuthorList''
                [node ''Author'' [leaf ''LastName'' ''Smith'', leaf ''Initials'' ''J'']]]]]"

definition untitled_article :: xml where
  "untitled_article =
     node ''PubmedArticle'' [node ''MedlineCitation'' [leaf ''PMID'' ''102'']]"

definition example_batch :: xml where
  "example_batch = node ''PubmedArticleSet'' [good_article, untitled_article]"

definition anonymous_author :: xml where
  "anonymous_author = node ''Author'' [leaf ''CollectiveName'' ''The Group'']"

definition two_anonymous :: xml where
  "two_anonymous = node ''PubmedArticle'' [node ''AuthorList'' [anonymous_author, anonymous_author]]"

definition four_anonymous :: xml where
  "four_anonymous =
     node ''PubmedArticle''
       [node ''AuthorList'' [anonymous_author, anonymous_author, anonymous_author, anonymous_author]]"

definition named_author :: "string \<Rightarrow> string \<Rightarrow> xml" where
  "named_author surname initials =
     node ''Author'' [leaf ''LastName'' surname, leaf ''Initials'' initials]"

definition two_named :: xml where
  "two_named =
     node ''PubmedArticle''
       [node ''AuthorList'' [named_author ''Smith'' ''J'', named_author ''Lee'' ''K'']]"

definition four_named :: xml where
  "four_named =
     node ''PubmedArticle''
       [node ''AuthorList''
          [named_author ''Smith'' ''J'', named_author ''Lee'' ''K'', named_author ''Wu'' ''L'',
           named_author ''Chen'' ''M'']]"


definition good_record :: article where
  "good_record =
     \<lparr> title = ascii ''Water and health'', authors = ascii ''Smith J'',
       journal = ascii ''The Journal'', year = ascii ''N/A'', pmid = Some (ascii ''101''),
       abstract = [], url = ascii ''https://pubmed.ncbi.nlm.nih.gov/101/'' \<rparr>"

definition untitled_record :: article where
  "untitled_record =
     \<lparr> title = ascii ''N/A'', authors = ascii ''Unknown'',
       journal = ascii ''Unknown Journal'', year = ascii ''N/A'', pmid = Some (ascii ''102''),
       abstract = [], url = ascii ''https://pubmed.ncbi.nlm.nih.gov/102/'' \<rparr>"



definition long_claim :: ustr where
  "long_claim = replicate 5001 0x61"


text \<open>A score section that holds 4301 zeros.\<close>

definition overlong_score :: ustr where
  "overlong_score = ascii ''[Credibility Score] '' @ replicate 4301 0x30"

section \<open>The contract of sections, in the words of the specification\<close>

text \<open>
  The specification describes \<open>extract_section\<close> without the regular expression: the
  result begins behind the first occurrence of the tag marker and ends before the next tag
  marker of any name, or at the end of the text, and is trimmed. \<open>marker tag\<close> is the
  bracketed tag and \<open>occurs_at m s i\<close> says that \<open>m\<close> stands at position \<open>i\<close> of \<open>s\<close>.
  A marker of any name stands at the head of a text when the text opens with a bracket,
  the name that follows, up to the first closing bracket, is not empty, and the closing
  bracket is there: \<open>marker_here\<close>, written without the lookahead of the code. \<open>[]\<close> is no
  marker, and neither is an opening bracket that is never closed. \<open>until_marker\<close> is the
  text up to the next marker of any name, or all of it.
\<close>

definition marker :: "ustr \<Rightarrow> ustr" where
  "marker tag = LBR # tag @ [RBR]"

definition occurs_at :: "ustr \<Rightarrow> ustr \<Rightarrow> nat \<Rightarrow> bool" where
  "occurs_at m s i \<longleftrightarrow> prefix m (drop i s)"

definition marker_here :: "ustr \<Rightarrow> bool" where
  "marker_here s \<longleftrightarrow>
     (case s of
        [] \<Rightarrow> False
      | c # cs \<Rightarrow>
          c = LBR \<and> takeWhile (\<lambda>x. x \<noteq> RBR) cs \<noteq> [] \<and>
          length (takeWhile (\<lambda>x. x \<noteq> RBR) cs) < length cs)"

fun until_marker :: "ustr \<Rightarrow> ustr" where
  "until_marker [] = []"
| "until_marker (c # cs) = (if marker_here (c # cs) then [] else c # until_marker cs)"

text \<open>
  A well-formed text with all nine sections: some lead, then the nine tags of the prompt,
  each once and in any order, each followed by its content. The lead and the contents hold
  no marker and nothing that could open one: an opening bracket in them is closed at
  once, as in \<open>[]\<close> (\<open>no_open_bracket\<close>). \<open>render\<close> writes the sections out and \<open>content\<close>
  is the trimmed content of a tag.
\<close>

definition nine_tags :: "ustr list" where
  "nine_tags = map ascii
     [''Credibility Score'', ''Risk Level'', ''Risk Reason'', ''Medical Accuracy'',
      ''Logical Fallacies'', ''Evidence Summary'', ''Key Misconceptions'',
      ''Scientific Rebuttal'', ''Expert Recommendation'']"

definition render :: "(ustr \<times> ustr) list \<Rightarrow> ustr" where
  "render secs = concat (map (\<lambda>(t, c). LBR # t @ RBR # c) secs)"

fun no_open_bracket :: "ustr \<Rightarrow> bool" where
  "no_open_bracket [] = True"
| "no_open_bracket [c] = (c \<noteq> LBR)"
| "no_open_bracket (c # d # cs) = ((if c = LBR then d = RBR else True) \<and> no_open_bracket (d # cs))"

definition well_formed :: "(ustr \<times> ustr) list \<Rightarrow> bool" where
  "well_formed secs \<longleftrightarrow>
     distinct (map fst secs) \<and> set (map fst secs) = set nine_tags \<and>
     list_all (\<lambda>(t, c). no_open_bracket c) secs"

definition content :: "(ustr \<times> ustr) list \<Rightarrow> ustr \<Rightarrow> ustr" where
  "content secs tag = (case map_of secs tag of None \<Rightarrow> [] | Some c \<Rightarrow> strip c)"

definition plain_tag :: "ustr \<Rightarrow> bool" where
  "plain_tag t \<longleftrightarrow> t \<noteq> [] \<and> LBR \<notin> set t \<and> RBR \<notin> set t"

definition example_sections :: "(ustr \<times> ustr) list" where
  "example_sections =
     [(ascii ''Risk Level'', ascii '' Dangerous '' @ [10]),
      (ascii ''Credibility Score'', ascii '' 12/100'' @ [10]),
      (ascii ''Risk Reason'', ascii '' No trial [] supports it.'' @ [10, 10]),
      (ascii ''Medical Accuracy'', ascii '' Wrong.''),
      (ascii ''Logical Fallacies'', [10] @ ascii ''- anecdote'' @ [10] @ ascii ''- appeal to nature'' @ [10]),
      (ascii ''Evidence Summary'', ascii '' None found.  ''),
      (ascii ''Key Misconceptions'', ascii '' None'' @ [10]),
      (ascii ''Scientific Rebuttal'', ascii '' Water is not a cure. ''),
      (ascii ''Expert Recommendation'', ascii '' See a doctor.'' @ [10])]"

section \<open>Properties of the score\<close>

lemma digit_runs_decimal:
  "\<forall>c\<in>set cur. dec c \<noteq> None \<Longrightarrow> t \<in> set (digit_runs dec cur s) \<Longrightarrow>
   t \<noteq> [] \<and> (\<forall>c\<in>set t. dec c \<noteq> None)"
proof (induction s arbitrary: cur)
  case Nil
  then show ?case by (cases "cur = []") auto
next
  case (Cons c cs)
  show ?case
  proof (cases "dec c = None")
    case True
    with Cons.prems have "t \<in> set (if cur = [] then [] else [cur]) \<or> t \<in> set (digit_runs dec [] cs)"
      by simp
    then show ?thesis
    proof
      assume "t \<in> set (if cur = [] then [] else [cur])"
      with Cons.prems(1) show ?thesis by (cases "cur = []") auto
    next
      assume "t \<in> set (digit_runs dec [] cs)"
      with Cons.IH [of "[]"] show ?thesis by simp
    qed
  next
    case False
    with Cons.prems have "t \<in> set (digit_runs dec (cur @ [c]) cs)" by simp
    moreover have "\<forall>x\<in>set (cur @ [c]). dec x \<noteq> None" using False Cons.prems(1) by simp
    ultimately show ?thesis using Cons.IH by blast
  qed
qed

text \<open>Every token of \<open>findall_digits\<close> is a non-empty string of decimal digits, so \<open>int\<close>
  raises on one only when it is too long.\<close>

lemma findall_digits_decimal:
  "t \<in> set (findall_digits dec s) \<Longrightarrow> t \<noteq> [] \<and> (\<forall>c\<in>set t. dec c \<noteq> None)"
  unfolding findall_digits_def using digit_runs_decimal [of "[]" dec t s] by simp

lemma py_int_decimal:
  "t \<noteq> [] \<Longrightarrow> \<forall>c\<in>set t. dec c \<noteq> None \<Longrightarrow>
   py_int dec t = (if max_str_digits < length t then Inl ValueError else Inr (decimal_value dec t))"
  by (auto simp: py_int_def list_ex_iff)

lemma decimal_value_nonneg: "0 \<le> decimal_value dec t"
proof -
  have "0 \<le> a \<Longrightarrow> 0 \<le> foldl (\<lambda>a c. 10 * a + (case dec c of Some d \<Rightarrow> int d | None \<Rightarrow> 0)) a t" for a
    by (induction t arbitrary: a) (auto split: option.splits)
  then show ?thesis by (simp add: decimal_value_def)
qed

text \<open>What the loop does on tokens of digits: it stops at the first token that is too
  long, with the exception, or in range, with its value.\<close>

lemma first_in_range_exact:
  "\<forall>t\<in>set ts. t \<noteq> [] \<and> (\<forall>c\<in>set t. dec c \<noteq> None) \<Longrightarrow>
   first_in_range dec ts =
     (case find (\<lambda>t. max_str_digits < length t \<or> decimal_value dec t \<le> 100) ts of
        None \<Rightarrow> Inr 50
      | Some t \<Rightarrow> if max_str_digits < length t then Inl ValueError
                  else Inr (decimal_value dec t))"
proof (induction ts)
  case Nil
  show ?case by simp
next
  case (Cons t ts)
  then have t: "t \<noteq> []" "\<forall>c\<in>set t. dec c \<noteq> None" by auto
  have ih: "first_in_range dec ts =
     (case find (\<lambda>t. max_str_digits < length t \<or> decimal_value dec t \<le> 100) ts of
        None \<Rightarrow> Inr 50
      | Some t \<Rightarrow> if max_str_digits < length t then Inl ValueError
                  else Inr (decimal_value dec t))"
    using Cons by simp
  show ?case
    by (simp add: py_int_decimal [OF t] decimal_value_nonneg ih)
qed

lemma first_in_range_bounded:
  assumes "\<forall>t\<in>set ts. t \<noteq> [] \<and> (\<forall>c\<in>set t. dec c \<noteq> None)"
    and "list_all (\<lambda>t. length t \<le> max_str_digits) ts"
  shows "first_in_range dec ts =
     Inr (case find (\<lambda>v. 0 \<le> v \<and> v \<le> 100) (map (decimal_value dec) ts) of
            Some v \<Rightarrow> v | None \<Rightarrow> 50)"
  using assms
proof (induction ts)
  case Nil
  show ?case by simp
next
  case (Cons t ts)
  then have t: "t \<noteq> []" "\<forall>c\<in>set t. dec c \<noteq> None" "\<not> max_str_digits < length t" by auto
  have "first_in_range dec ts =
     Inr (case find (\<lambda>v. 0 \<le> v \<and> v \<le> 100) (map (decimal_value dec) ts) of
            Some v \<Rightarrow> v | None \<Rightarrow> 50)"
    using Cons by simp
  then show ?case
    by (simp add: py_int_decimal [OF t(1,2)] t(3) decimal_value_nonneg)
qed

lemma extract_score_bounded:
  "digits_bounded dec s \<Longrightarrow>
   extract_score dec s =
     Inr (case find (\<lambda>v. 0 \<le> v \<and> v \<le> 100) (map (decimal_value dec) (findall_digits dec s)) of
            Some v \<Rightarrow> v | None \<Rightarrow> 50)"
  unfolding extract_score_def digits_bounded_def using findall_digits_decimal [of _ dec s]
  by (intro first_in_range_bounded) blast+

lemma extract_score_Inr_range:
  assumes "extract_score dec s = Inr v"
  shows "0 \<le> v \<and> v \<le> 100"
proof -
  have "first_in_range dec ts = Inr v \<Longrightarrow> 0 \<le> v \<and> v \<le> 100" for ts
    by (induction ts) (auto split: sum.splits if_splits)
  then show ?thesis using assms by (simp add: extract_score_def)
qed

lemma extract_score_Inl:
  assumes "extract_score dec s = Inl e"
  shows "e = ValueError \<and> \<not> digits_bounded dec s"
proof -
  have "\<not> digits_bounded dec s"
    using assms extract_score_bounded [of dec s] by auto
  moreover have "first_in_range dec ts = Inl e \<Longrightarrow> e = ValueError" for ts
    by (induction ts) (auto simp: py_int_def split: sum.splits if_splits)
  ultimately show ?thesis using assms by (simp add: extract_score_def)
qed

lemma digit_runs_replicate:
  "dec c \<noteq> None \<Longrightarrow> cur @ replicate n c \<noteq> [] \<Longrightarrow>
   digit_runs dec cur (replicate n c) = [cur @ replicate n c]"
proof (induction n arbitrary: cur)
  case 0
  then show ?case by simp
next
  case (Suc n)
  have "digit_runs dec cur (replicate (Suc n) c) = digit_runs dec (cur @ [c]) (replicate n c)"
    using Suc.prems(1) by simp
  also have "\<dots> = [(cur @ [c]) @ replicate n c]"
    using Suc.prems(1) by (intro Suc.IH) simp_all
  finally show ?case by (simp add: replicate_app_Cons_same)
qed

lemma extract_score_overlong:
  "dec c \<noteq> None \<Longrightarrow> max_str_digits < n \<Longrightarrow> extract_score dec (replicate n c) = Inl ValueError"
proof -
  assume c: "dec c \<noteq> None" and n: "max_str_digits < n"
  then have "replicate n c \<noteq> []" by auto
  then have "findall_digits dec (replicate n c) = [replicate n c]"
    using digit_runs_replicate [of dec c "[]" n] c by (simp add: findall_digits_def)
  then show ?thesis using n by (simp add: extract_score_def py_int_def)
qed

lemmas score_eval =
  extract_score_def findall_digits_def ascii_def ascii_decimal_def py_int_def decimal_value_def
  max_str_digits_def digits_bounded_def

lemmas section_eval =
  extract_section_def strip_def lstrip_def rstrip_def isspace_def at_end_def LBR_def RBR_def
  ascii_def

text \<open>
  C3, as the specification states it: on \<open>"[Credibility Score] -5 but maybe 30"\<close> the score
  is 30, the token \<open>-5\<close> being out of range. It is not: \<open>\d+\<close> has no sign, the tokens are
  \<open>5\<close> and \<open>30\<close>, and 5 is in range.
\<close>

theorem extract_score_sign_counterexample:
  "extract_score ascii_decimal
     (extract_section (ascii ''[Credibility Score] -5 but maybe 30'') (ascii ''Credibility Score''))
   \<noteq> Inr 30"
  by (simp add: section_eval score_eval)

text \<open>
  C3, amended: for every section text whose runs of decimal digits have at most 4300
  digits each (and every table of decimal digits), \<open>extract_score\<close> returns the value of
  the first maximal run of decimal digits, in the order of the text, that lies in
  \<open>[0,100]\<close>, and 50 when there is none; a sign is no part of a token. So
  \<open>"[Credibility Score] 85/100"\<close> gives 85, \<open>"[Credibility Score] The score is 140"\<close> gives
  50, and \<open>"[Credibility Score] -5 but maybe 30"\<close> gives 5.
\<close>

theorem extract_score_first_in_range:
  "(digits_bounded dec s \<longrightarrow>
      extract_score dec s =
        Inr (case find (\<lambda>v. 0 \<le> v \<and> v \<le> 100)
                 (map (decimal_value dec) (findall_digits dec s)) of
               Some v \<Rightarrow> v | None \<Rightarrow> 50))
   \<and> extract_score ascii_decimal
       (extract_section (ascii ''[Credibility Score] 85/100'') (ascii ''Credibility Score'')) = Inr 85
   \<and> extract_score ascii_decimal
       (extract_section (ascii ''[Credibility Score] The score is 140'') (ascii ''Credibility Score''))
       = Inr 50
   \<and> extract_score ascii_decimal
       (extract_section (ascii ''[Credibility Score] -5 but maybe 30'') (ascii ''Credibility Score''))
       = Inr 5"
proof (intro conjI impI)
  assume "digits_bounded dec s"
  then show "extract_score dec s =
        Inr (case find (\<lambda>v. 0 \<le> v \<and> v \<le> 100)
                 (map (decimal_value dec) (findall_digits dec s)) of
               Some v \<Rightarrow> v | None \<Rightarrow> 50)" by (rule extract_score_bounded)
qed (simp_all add: section_eval score_eval)

theorem extract_score_first_in_range_witness:
  "digits_bounded ascii_decimal (ascii ''140, then -5 but maybe 30'')
   \<and> findall_digits ascii_decimal (ascii ''140, then -5 but maybe 30'')
       = [ascii ''140'', ascii ''5'', ascii ''30'']
   \<and> extract_score ascii_decimal (ascii ''140, then -5 but maybe 30'') = Inr 5"
proof -
  have b: "digits_bounded ascii_decimal (ascii ''140, then -5 but maybe 30'')"
    by (simp add: score_eval)
  have t: "findall_digits ascii_decimal (ascii ''140, then -5 but maybe 30'')
       = [ascii ''140'', ascii ''5'', ascii ''30'']"
    by (simp add: score_eval)
  have v: "map (decimal_value ascii_decimal) [ascii ''140'', ascii ''5'', ascii ''30''] = [140, 5, 30]"
    by (simp add: score_eval)
  from extract_score_first_in_range [of ascii_decimal "ascii ''140, then -5 but maybe 30''"] b
  have "extract_score ascii_decimal (ascii ''140, then -5 but maybe 30'') =
        Inr (case find (\<lambda>v. 0 \<le> v \<and> v \<le> 100)
                 (map (decimal_value ascii_decimal)
                    (findall_digits ascii_decimal (ascii ''140, then -5 but maybe 30''))) of
               Some v \<Rightarrow> v | None \<Rightarrow> 50)"
    by blast
  then have "extract_score ascii_decimal (ascii ''140, then -5 but maybe 30'') = Inr 5"
    unfolding t v by simp
  with b t show ?thesis by blast
qed

section \<open>Properties of the result record\<close>

lemma strip_Nil_iff: "strip s = [] \<longleftrightarrow> list_all isspace s"
proof
  assume "strip s = []"
  then have all: "\<forall>x\<in>set (dropWhile isspace s). isspace x"
    by (simp add: strip_def rstrip_def lstrip_def dropWhile_eq_Nil_conv)
  have "dropWhile isspace s = []"
  proof (rule ccontr)
    assume ne: "dropWhile isspace s \<noteq> []"
    then have "\<not> isspace (hd (dropWhile isspace s))" by (rule hd_dropWhile)
    moreover have "hd (dropWhile isspace s) \<in> set (dropWhile isspace s)" using ne by simp
    ultimately show False using all by blast
  qed
  then show "list_all isspace s" by (simp add: dropWhile_eq_Nil_conv list_all_iff)
next
  assume "list_all isspace s"
  then have d: "dropWhile isspace s = []" by (simp add: dropWhile_eq_Nil_conv list_all_iff)
  show "strip s = []" unfolding strip_def rstrip_def lstrip_def d by simp
qed

lemma strip_unchanged:
  assumes "s \<noteq> []" "\<not> isspace (hd s)" "\<not> isspace (last s)"
  shows "strip s = s"
proof -
  have "dropWhile isspace s = s" using assms(2) by (simp add: dropWhile_eq_self_iff)
  moreover have "dropWhile isspace (rev s) = rev s"
    using assms(1,3) by (simp add: dropWhile_eq_self_iff hd_rev)
  ultimately show ?thesis by (simp add: strip_def lstrip_def rstrip_def)
qed

lemma resolve_risk_cases:
  "resolve_risk levels s \<in> set levels \<or> resolve_risk levels s = ascii ''Misleading''"
  by (induction levels) auto

lemma resolve_risk_levels: "resolve_risk risk_levels s \<in> set risk_levels"
  using resolve_risk_cases [of risk_levels s] by (auto simp: risk_levels_def)

lemma ascii_Nil_iff: "ascii s = [] \<longleftrightarrow> s = []"
  by (simp add: ascii_def)

lemma str_or_Nil_iff: "str_or a b = [] \<longleftrightarrow> a = [] \<and> b = []"
  by (simp add: str_or_def)

lemmas text_eval =
  strip_def lstrip_def rstrip_def isspace_def ascii_def lower_def lower_char_def str_or_def

lemma parse_model_output_blank:
  "list_all isspace raw \<Longrightarrow> parse_model_output dec raw = Inr failure_result"
  using strip_Nil_iff [of raw] by (simp add: parse_model_output_def)

text \<open>On a text that is not blank, the result is decided by the score: the exception of
  \<open>extract_score\<close>, or the record built around its value.\<close>

lemma parse_model_output_Inl:
  assumes "parse_model_output dec raw = Inl e"
  shows "e = ValueError \<and> \<not> list_all isspace raw \<and> \<not> score_digits_bounded dec raw"
proof -
  have nb: "\<not> list_all isspace raw" using assms parse_model_output_blank [of raw dec] by auto
  then have "raw \<noteq> []" "strip raw \<noteq> []" using strip_Nil_iff [of raw] by auto
  then have "extract_score dec (extract_section raw (ascii ''Credibility Score'')) = Inl e"
    using assms by (simp add: parse_model_output_def Let_def split: sum.splits)
  then show ?thesis using nb extract_score_Inl by (simp add: score_digits_bounded_def)
qed

lemma parse_model_output_returns:
  "score_digits_bounded dec raw \<Longrightarrow> \<exists>r. parse_model_output dec raw = Inr r"
  using parse_model_output_Inl [of dec raw] by (cases "parse_model_output dec raw") auto

lemma parse_model_output_record:
  assumes "\<not> list_all isspace raw" "parse_model_output dec raw = Inr r"
  shows "extract_score dec (extract_section raw (ascii ''Credibility Score'')) = Inr (credibility_score r)"
    and "0 \<le> credibility_score r \<and> credibility_score r \<le> 100"
    and "risk_level r = resolve_risk risk_levels (extract_section raw (ascii ''Risk Level''))"
    and "risk_reason r = str_or (extract_section raw (ascii ''Risk Reason'')) (ascii ''Not provided'')"
    and "medical_accuracy r = str_or (extract_section raw (ascii ''Medical Accuracy'')) (take 500 raw)"
    and "logical_fallacies r = extract_list_items (extract_section raw (ascii ''Logical Fallacies''))"
    and "evidence_summary r = str_or (extract_section raw (ascii ''Evidence Summary''))
           (ascii ''No evidence description found'')"
    and "key_misconceptions r = extract_list_items (extract_section raw (ascii ''Key Misconceptions''))"
    and "rebuttal r = str_or (extract_section raw (ascii ''Scientific Rebuttal''))
           (ascii ''Consult a healthcare professional for more information.'')"
    and "recommendation r = str_or (extract_section raw (ascii ''Expert Recommendation''))
           (ascii ''For health-related information, consult a qualified healthcare provider.'')"
    and "parse_error r = None"
    and "raw_output r = raw"
proof -
  have nb: "raw \<noteq> []" "strip raw \<noteq> []" using assms(1) strip_Nil_iff [of raw] by auto
  obtain v where v: "extract_score dec (extract_section raw (ascii ''Credibility Score'')) = Inr v"
    using assms(2) nb
    by (cases "extract_score dec (extract_section raw (ascii ''Credibility Score''))")
      (simp_all add: parse_model_output_def Let_def)
  have r: "r = \<lparr> credibility_score = v,
         risk_level = resolve_risk risk_levels (extract_section raw (ascii ''Risk Level'')),
         risk_reason = str_or (extract_section raw (ascii ''Risk Reason'')) (ascii ''Not provided''),
         medical_accuracy = str_or (extract_section raw (ascii ''Medical Accuracy'')) (take 500 raw),
         logical_fallacies = extract_list_items (extract_section raw (ascii ''Logical Fallacies'')),
         evidence_summary = str_or (extract_section raw (ascii ''Evidence Summary''))
           (ascii ''No evidence description found''),
         key_misconceptions = extract_list_items (extract_section raw (ascii ''Key Misconceptions'')),
         rebuttal = str_or (extract_section raw (ascii ''Scientific Rebuttal''))
           (ascii ''Consult a healthcare professional for more information.''),
         recommendation = str_or (extract_section raw (ascii ''Expert Recommendation''))
           (ascii ''For health-related information, consult a qualified healthcare provider.''),
         parse_error = None,
         raw_output = raw \<rparr>"
    using assms(2) nb v by (simp add: parse_model_output_def Let_def)
  show "extract_score dec (extract_section raw (ascii ''Credibility Score'')) = Inr (credibility_score r)"
    using v r by simp
  show "0 \<le> credibility_score r \<and> credibility_score r \<le> 100"
    using extract_score_Inr_range [OF v] r by simp
  show "risk_level r = resolve_risk risk_levels (extract_section raw (ascii ''Risk Level''))"
    "risk_reason r = str_or (extract_section raw (ascii ''Risk Reason'')) (ascii ''Not provided'')"
    "medical_accuracy r = str_or (extract_section raw (ascii ''Medical Accuracy'')) (take 500 raw)"
    "logical_fallacies r = extract_list_items (extract_section raw (ascii ''Logical Fallacies''))"
    "evidence_summary r = str_or (extract_section raw (ascii ''Evidence Summary''))
           (ascii ''No evidence description found'')"
    "key_misconceptions r = extract_list_items (extract_section raw (ascii ''Key Misconceptions''))"
    "rebuttal r = str_or (extract_section raw (ascii ''Scientific Rebuttal''))
           (ascii ''Consult a healthcare professional for more information.'')"
    "recommendation r = str_or (extract_section raw (ascii ''Expert Recommendation''))
           (ascii ''For health-related information, consult a qualified healthcare provider.'')"
    "parse_error r = None"
    "raw_output r = raw"
    using r by simp_all
qed

text \<open>The section of the score in \<open>overlong_score\<close> is its 4301 zeros.\<close>

lemma lazy_group_replicate:
  "c \<noteq> LBR \<Longrightarrow> c \<noteq> 10 \<Longrightarrow> lazy_group (replicate n c) = replicate n c"
  by (induction n) (auto simp: at_end_def dest: bracket_here.elims(2))

lemma strip_replicate: "\<not> isspace c \<Longrightarrow> strip (replicate n c) = replicate n c"
  by (simp add: strip_def lstrip_def rstrip_def dropWhile_replicate)

lemma extract_section_score_replicate:
  assumes "c \<noteq> LBR" "c \<noteq> 10" "\<not> isspace c"
  shows "extract_section (ascii ''[Credibility Score] '' @ replicate n c) (ascii ''Credibility Score'')
     = replicate n c"
proof -
  have "after_tag (ascii ''Credibility Score'') (ascii ''[Credibility Score] '' @ zs) = Some (0x20 # zs)"
    for zs by (simp add: ascii_def LBR_def RBR_def)
  moreover have "dropWhile isspace (0x20 # replicate n c) = replicate n c"
    using assms(3) by (simp add: dropWhile_replicate) (simp add: isspace_def)
  ultimately show ?thesis
    using lazy_group_replicate [OF assms(1,2)] strip_replicate [OF assms(3)]
    by (simp add: extract_section_def)
qed

lemma extract_section_overlong:
  "extract_section overlong_score (ascii ''Credibility Score'') = replicate 4301 0x30"
  unfolding overlong_score_def
  by (rule extract_section_score_replicate) (simp_all add: LBR_def isspace_def)

lemma not_blank_score_tag: "\<not> list_all isspace (ascii ''[Credibility Score] '' @ zs)"
  by (simp add: ascii_def isspace_def)

lemma overlong_score_not_blank: "\<not> list_all isspace overlong_score"
  unfolding overlong_score_def by (rule not_blank_score_tag)

lemma parse_model_output_overlong: "parse_model_output ascii_decimal overlong_score = Inl ValueError"
proof -
  have "extract_score ascii_decimal (replicate 4301 0x30) = Inl ValueError"
    by (rule extract_score_overlong) (simp_all add: ascii_decimal_def max_str_digits_def)
  moreover have "overlong_score \<noteq> []" "strip overlong_score \<noteq> []"
    using overlong_score_not_blank strip_Nil_iff [of overlong_score] by auto
  ultimately show ?thesis
    by (simp add: parse_model_output_def Let_def extract_section_overlong)
qed

text \<open>
  C1, as the specification states it: \<open>parse_model_output\<close> never raises. On a text whose
  score section is a run of 4301 zeros, \<open>int\<close> raises \<open>ValueError\<close> in \<open>extract_score\<close>, and
  nothing between there and the caller catches it.
\<close>

theorem parse_model_output_overlong_counterexample:
  "\<not> list_all isspace overlong_score
   \<and> extract_section overlong_score (ascii ''Credibility Score'') = replicate 4301 0x30
   \<and> parse_model_output ascii_decimal overlong_score = Inl ValueError"
  using overlong_score_not_blank extract_section_overlong parse_model_output_overlong by simp

text \<open>
  C1, amended: \<open>parse_model_output\<close> does not raise on an input that is empty or white
  space only, nor on any input whose score section has no run of more than 4300 digits.
  Whenever it returns, the parse-error flag of its result is true exactly when the input
  is empty or white space only: in that case the result is the fixed record of defaults
  (score 0, risk level \<open>Misleading\<close>, the reason that the model produced no output, raw
  output \<open>"(empty)"\<close>); on every other input the key \<open>_parse_error\<close> is not set, so the flag
  reads false, whatever sections were missing.
\<close>

theorem parse_model_output_parse_error:
  "(list_all isspace raw \<longrightarrow> parse_model_output dec raw = Inr failure_result)
   \<and> (score_digits_bounded dec raw \<longrightarrow> (\<exists>r. parse_model_output dec raw = Inr r))
   \<and> (parse_model_output dec raw = Inr r \<longrightarrow>
        (parse_error_flag r \<longleftrightarrow> list_all isspace raw)
        \<and> (if list_all isspace raw then r = failure_result
           else parse_error r = None \<and> raw_output r = raw))
   \<and> credibility_score failure_result = 0
   \<and> risk_level failure_result = ascii ''Misleading''
   \<and> risk_reason failure_result = ascii ''Model produced no output; check HF token and GPU memory.''
   \<and> logical_fallacies failure_result = [] \<and> key_misconceptions failure_result = []
   \<and> parse_error failure_result = Some True
   \<and> raw_output failure_result = ascii ''(empty)''"
proof (intro conjI impI)
  assume "list_all isspace raw"
  then show "parse_model_output dec raw = Inr failure_result" by (rule parse_model_output_blank)
next
  assume "score_digits_bounded dec raw"
  then show "\<exists>r. parse_model_output dec raw = Inr r" by (rule parse_model_output_returns)
next
  assume r: "parse_model_output dec raw = Inr r"
  show "parse_error_flag r \<longleftrightarrow> list_all isspace raw"
  proof (cases "list_all isspace raw")
    case True
    then have "r = failure_result" using r parse_model_output_blank [of raw dec] by simp
    then show ?thesis using True by (simp add: parse_error_flag_def failure_result_def)
  next
    case False
    then show ?thesis
      using parse_model_output_record(11) [OF False r] by (simp add: parse_error_flag_def)
  qed
  show "if list_all isspace raw then r = failure_result
        else parse_error r = None \<and> raw_output r = raw"
  proof (cases "list_all isspace raw")
    case True
    then show ?thesis using r parse_model_output_blank [of raw dec] by simp
  next
    case False
    then show ?thesis
      using parse_model_output_record(11,12) [OF False r] by simp
  qed
qed (simp_all add: failure_result_def)

theorem parse_model_output_parse_error_witness:
  "parse_model_output ascii_decimal [] = Inr failure_result
   \<and> parse_model_output ascii_decimal (ascii ''   '') = Inr failure_result
   \<and> parse_error_flag failure_result
   \<and> score_digits_bounded ascii_decimal (ascii ''no tags at all'')
   \<and> (\<exists>r. parse_model_output ascii_decimal (ascii ''no tags at all'') = Inr r
        \<and> \<not> parse_error_flag r \<and> raw_output r = ascii ''no tags at all'')"
proof -
  have a: "list_all isspace []" "list_all isspace (ascii ''   '')"
    "\<not> list_all isspace (ascii ''no tags at all'')"
    by (simp_all add: isspace_def ascii_def)
  have b: "score_digits_bounded ascii_decimal (ascii ''no tags at all'')"
    by (simp add: score_digits_bounded_def section_eval score_eval)
  from parse_model_output_parse_error [of "[]" ascii_decimal] a(1)
  have 1: "parse_model_output ascii_decimal [] = Inr failure_result" by blast
  from parse_model_output_parse_error [of "ascii ''   ''" ascii_decimal] a(2)
  have 2: "parse_model_output ascii_decimal (ascii ''   '') = Inr failure_result" by blast
  from parse_model_output_parse_error [of "ascii ''   ''" ascii_decimal failure_result] a(2) 2
  have 3: "parse_error_flag failure_result" by blast
  from parse_model_output_parse_error [of "ascii ''no tags at all''" ascii_decimal] b
  obtain r where r: "parse_model_output ascii_decimal (ascii ''no tags at all'') = Inr r" by blast
  from parse_model_output_parse_error [of "ascii ''no tags at all''" ascii_decimal r] r a(3)
  have "\<not> parse_error_flag r \<and> raw_output r = ascii ''no tags at all''" by simp
  with 1 2 3 b r show ?thesis by blast
qed

lemma scored_example:
  "parse_model_output ascii_decimal (ascii ''[Risk Level] safe [Credibility Score] 140'') =
     Inr \<lparr> credibility_score = 50, risk_level = ascii ''Safe'',
           risk_reason = ascii ''Not provided'',
           medical_accuracy = ascii ''[Risk Level] safe [Credibility Score] 140'',
           logical_fallacies = [],
           evidence_summary = ascii ''No evidence description found'',
           key_misconceptions = [],
           rebuttal = ascii ''Consult a healthcare professional for more information.'',
           recommendation = ascii ''For health-related information, consult a qualified healthcare provider.'',
           parse_error = None,
           raw_output = ascii ''[Risk Level] safe [Credibility Score] 140'' \<rparr>"
  by (simp add: parse_model_output_def section_eval score_eval text_eval risk_levels_def
      extract_list_items_def splitlines_def Let_def)

text \<open>
  C8: for every input, the record that \<open>parse_model_output\<close> returns has a score that is
  an integer in \<open>[0,100]\<close>, a risk level that is one of \<open>Safe\<close>, \<open>Misleading\<close>, \<open>Dangerous\<close>,
  and five scalar texts (risk reason, medical accuracy, evidence summary, rebuttal,
  recommendation) that are non-empty strings. Nothing is said of the two lists: they may
  be empty, as in the failure record. A record is returned on every input whose score
  section has no run of more than 4300 digits.
\<close>

theorem parse_model_output_invariant:
  "(parse_model_output dec raw = Inr r \<longrightarrow>
      0 \<le> credibility_score r \<and> credibility_score r \<le> 100
      \<and> (risk_level r = ascii ''Safe'' \<or> risk_level r = ascii ''Misleading''
         \<or> risk_level r = ascii ''Dangerous'')
      \<and> risk_reason r \<noteq> [] \<and> medical_accuracy r \<noteq> [] \<and> evidence_summary r \<noteq> []
      \<and> rebuttal r \<noteq> [] \<and> recommendation r \<noteq> [])
   \<and> (score_digits_bounded dec raw \<longrightarrow> (\<exists>r. parse_model_output dec raw = Inr r))"
proof (rule conjI; rule impI)
  assume "score_digits_bounded dec raw"
  then show "\<exists>r. parse_model_output dec raw = Inr r" by (rule parse_model_output_returns)
next
  assume r: "parse_model_output dec raw = Inr r"
  show "0 \<le> credibility_score r \<and> credibility_score r \<le> 100
      \<and> (risk_level r = ascii ''Safe'' \<or> risk_level r = ascii ''Misleading''
         \<or> risk_level r = ascii ''Dangerous'')
      \<and> risk_reason r \<noteq> [] \<and> medical_accuracy r \<noteq> [] \<and> evidence_summary r \<noteq> []
      \<and> rebuttal r \<noteq> [] \<and> recommendation r \<noteq> []"
  proof (cases "list_all isspace raw")
    case True
    then have "r = failure_result" using r parse_model_output_blank [of raw dec] by simp
    then show ?thesis by (simp add: failure_result_def ascii_Nil_iff)
  next
    case False
    then have "raw \<noteq> []" by auto
    moreover note parse_model_output_record(2,3,4,5,7,9,10) [OF False r]
    moreover have "resolve_risk risk_levels t \<in> set risk_levels" for t
      by (rule resolve_risk_levels)
    ultimately show ?thesis
      by (auto simp: str_or_Nil_iff ascii_Nil_iff risk_levels_def)
  qed
qed

theorem parse_model_output_invariant_witness:
  "score_digits_bounded ascii_decimal (ascii ''[Risk Level] safe [Credibility Score] 140'')
   \<and> (\<exists>r. parse_model_output ascii_decimal (ascii ''[Risk Level] safe [Credibility Score] 140'') = Inr r
        \<and> credibility_score r = 50 \<and> risk_level r = ascii ''Safe''
        \<and> risk_reason r = ascii ''Not provided''
        \<and> 0 \<le> credibility_score r \<and> credibility_score r \<le> 100
        \<and> (risk_level r = ascii ''Safe'' \<or> risk_level r = ascii ''Misleading''
           \<or> risk_level r = ascii ''Dangerous'')
        \<and> risk_reason r \<noteq> [] \<and> medical_accuracy r \<noteq> [] \<and> evidence_summary r \<noteq> []
        \<and> rebuttal r \<noteq> [] \<and> recommendation r \<noteq> [])"
proof -
  let ?x = "ascii ''[Risk Level] safe [Credibility Score] 140''"
  have b: "score_digits_bounded ascii_decimal ?x"
    by (simp add: score_digits_bounded_def section_eval score_eval)
  from parse_model_output_invariant [of ascii_decimal ?x] b
  obtain r where r: "parse_model_output ascii_decimal ?x = Inr r" by blast
  from r have v: "credibility_score r = 50 \<and> risk_level r = ascii ''Safe''
      \<and> risk_reason r = ascii ''Not provided''"
    unfolding scored_example by auto
  from parse_model_output_invariant [of ascii_decimal ?x r] r
  have "0 \<le> credibility_score r \<and> credibility_score r \<le> 100
        \<and> (risk_level r = ascii ''Safe'' \<or> risk_level r = ascii ''Misleading''
           \<or> risk_level r = ascii ''Dangerous'')
        \<and> risk_reason r \<noteq> [] \<and> medical_accuracy r \<noteq> [] \<and> evidence_summary r \<noteq> []
        \<and> rebuttal r \<noteq> [] \<and> recommendation r \<noteq> []" by blast
  with b r v show ?thesis by blast
qed

text \<open>
  C7, as the specification states it: on every non-empty input, a scalar field whose
  section extracts to empty takes its fallback, medical accuracy the first 500 characters
  of the raw text and the risk reason \<open>"Not provided"\<close>. Three blanks are a non-empty input
  on which every section is empty, and there the result is the failure record: its medical
  accuracy is not the raw text and its risk reason is not \<open>"Not provided"\<close>.
\<close>

theorem parse_model_output_blank_counterexample:
  "ascii ''   '' \<noteq> []
   \<and> extract_section (ascii ''   '') (ascii ''Medical Accuracy'') = []
   \<and> extract_section (ascii ''   '') (ascii ''Risk Reason'') = []
   \<and> parse_model_output ascii_decimal (ascii ''   '') = Inr failure_result
   \<and> medical_accuracy failure_result \<noteq> take 500 (ascii ''   '')
   \<and> risk_reason failure_result \<noteq> ascii ''Not provided''"
  by (simp add: parse_model_output_def failure_result_def section_eval)

text \<open>
  C7, amended: on every input that is neither empty nor white space only, in the record
  that \<open>parse_model_output\<close> returns each of the five scalar fields is its section when
  the section is not empty and its own fallback otherwise, independently of the other
  fields: \<open>"Not provided"\<close> for the risk reason, the first 500 characters of the raw text
  for medical accuracy, \<open>"No evidence description found"\<close> for the evidence summary, and
  the two texts that send the reader to a healthcare professional for the rebuttal and the
  recommendation. A record is returned on every input whose score section has no run of
  more than 4300 digits.
\<close>

theorem parse_model_output_fallbacks:
  "(\<not> list_all isspace raw \<and> parse_model_output dec raw = Inr r \<longrightarrow>
      risk_reason r =
        (if extract_section raw (ascii ''Risk Reason'') = [] then ascii ''Not provided''
         else extract_section raw (ascii ''Risk Reason''))
      \<and> medical_accuracy r =
        (if extract_section raw (ascii ''Medical Accuracy'') = [] then take 500 raw
         else extract_section raw (ascii ''Medical Accuracy''))
      \<and> evidence_summary r =
        (if extract_section raw (ascii ''Evidence Summary'') = []
         then ascii ''No evidence description found''
         else extract_section raw (ascii ''Evidence Summary''))
      \<and> rebuttal r =
        (if extract_section raw (ascii ''Scientific Rebuttal'') = []
         then ascii ''Consult a healthcare professional for more information.''
         else extract_section raw (ascii ''Scientific Rebuttal''))
      \<and> recommendation r =
        (if extract_section raw (ascii ''Expert Recommendation'') = []
         then ascii ''For health-related information, consult a qualified healthcare provider.''
         else extract_section raw (ascii ''Expert Recommendation'')))
   \<and> (score_digits_bounded dec raw \<longrightarrow> (\<exists>r. parse_model_output dec raw = Inr r))"
proof (intro conjI impI)
  assume "score_digits_bounded dec raw"
  then show "\<exists>r. parse_model_output dec raw = Inr r" by (rule parse_model_output_returns)
next
  assume a: "\<not> list_all isspace raw \<and> parse_model_output dec raw = Inr r"
  then have nb: "\<not> list_all isspace raw" and r: "parse_model_output dec raw = Inr r" by simp_all
  note f = parse_model_output_record(4,5,7,9,10) [OF nb r]
  show "risk_reason r =
        (if extract_section raw (ascii ''Risk Reason'') = [] then ascii ''Not provided''
         else extract_section raw (ascii ''Risk Reason''))"
    using f(1) by (simp add: str_or_def)
  show "medical_accuracy r =
        (if extract_section raw (ascii ''Medical Accuracy'') = [] then take 500 raw
         else extract_section raw (ascii ''Medical Accuracy''))"
    using f(2) by (simp add: str_or_def)
  show "evidence_summary r =
        (if extract_section raw (ascii ''Evidence Summary'') = []
         then ascii ''No evidence description found''
         else extract_section raw (ascii ''Evidence Summary''))"
    using f(3) by (simp add: str_or_def)
  show "rebuttal r =
        (if extract_section raw (ascii ''Scientific Rebuttal'') = []
         then ascii ''Consult a healthcare professional for more information.''
         else extract_section raw (ascii ''Scientific Rebuttal''))"
    using f(4) by (simp add: str_or_def)
  show "recommendation r =
        (if extract_section raw (ascii ''Expert Recommendation'') = []
         then ascii ''For health-related information, consult a qualified healthcare provider.''
         else extract_section raw (ascii ''Expert Recommendation''))"
    using f(5) by (simp add: str_or_def)
qed

theorem parse_model_output_fallbacks_witness:
  "\<not> list_all isspace (ascii ''[Risk Reason] because'')
   \<and> score_digits_bounded ascii_decimal (ascii ''[Risk Reason] because'')
   \<and> (\<exists>r. parse_model_output ascii_decimal (ascii ''[Risk Reason] because'') = Inr r
        \<and> risk_reason r = ascii ''because''
        \<and> medical_accuracy r = ascii ''[Risk Reason] because''
        \<and> evidence_summary r = ascii ''No evidence description found''
        \<and> rebuttal r = ascii ''Consult a healthcare professional for more information.''
        \<and> recommendation r =
            ascii ''For health-related information, consult a qualified healthcare provider.'')"
proof -
  let ?x = "ascii ''[Risk Reason] because''"
  have ne: "\<not> list_all isspace ?x"
    by (simp add: isspace_def ascii_def)
  have b: "score_digits_bounded ascii_decimal ?x"
    by (simp add: score_digits_bounded_def section_eval score_eval)
  have s: "extract_section ?x (ascii ''Risk Reason'') = ascii ''because''"
    "extract_section ?x (ascii ''Medical Accuracy'') = []"
    "extract_section ?x (ascii ''Evidence Summary'') = []"
    "extract_section ?x (ascii ''Scientific Rebuttal'') = []"
    "extract_section ?x (ascii ''Expert Recommendation'') = []"
    by (simp_all add: section_eval)
  have t: "take 500 ?x = ?x"
    by (simp add: ascii_def)
  have n: "ascii ''because'' \<noteq> []" by (simp add: ascii_def)
  from parse_model_output_fallbacks [of ?x ascii_decimal] b
  obtain r where r: "parse_model_output ascii_decimal ?x = Inr r" by blast
  from parse_model_output_fallbacks [of ?x ascii_decimal r] ne r
  have "risk_reason r = ascii ''because''
        \<and> medical_accuracy r = ascii ''[Risk Reason] because''
        \<and> evidence_summary r = ascii ''No evidence description found''
        \<and> rebuttal r = ascii ''Consult a healthcare professional for more information.''
        \<and> recommendation r =
            ascii ''For health-related information, consult a qualified healthcare provider.''"
    unfolding s t using n by simp
  with ne b r show ?thesis by blast
qed

section \<open>Properties of the list items\<close>

lemmas list_eval =
  extract_list_items_def splitlines_def is_linebreak_def bullets_def startswith_bullet_def
  lstrip_bullets_def sentinels_def Let_def

lemma extract_list_items_examples:
  "extract_list_items (ascii ''- claim A'' @ [10] @ ascii ''- claim B'' @ [10] @ ascii ''None'')
     = [ascii ''claim A'', ascii ''claim B'']"
  "extract_list_items (ascii ''None'') = []"
  by (simp_all add: list_eval text_eval)

text \<open>
  C9: the whole section stands for a single implicit item only when no bulleted line was
  found. The code tests instead that no item was kept: on the section \<open>"- None"\<close> the one
  bulleted line is found and its item, a sentinel, is discarded, and the section is then
  returned whole, marker included, as an item.
\<close>

theorem extract_list_items_bulleted_sentinel:
  "extract_list_items (ascii ''- None'') = [ascii ''- None'']"
  by (simp add: list_eval text_eval)

section \<open>Properties of the sections\<close>

lemma strip_spaces_left: "\<forall>x\<in>set ws. isspace x \<Longrightarrow> strip (ws @ z) = strip z"
  by (simp add: strip_def lstrip_def)

lemma strip_spaces_right:
  assumes "\<forall>x\<in>set ws. isspace x"
  shows "strip (z @ ws) = strip z"
proof (cases "list_all isspace z")
  case True
  then have "list_all isspace (z @ ws)" using assms by (auto simp: list_all_iff)
  then have "strip (z @ ws) = []" by (simp only: strip_Nil_iff)
  moreover have "strip z = []" using True by (simp only: strip_Nil_iff)
  ultimately show ?thesis by simp
next
  case False
  then obtain x where "x \<in> set z" "\<not> isspace x" by (auto simp: list_all_iff)
  then have "dropWhile isspace (z @ ws) = dropWhile isspace z @ ws"
    by (rule dropWhile_append1)
  moreover have "dropWhile isspace (rev ws @ r) = dropWhile isspace r" for r
    using assms by (intro dropWhile_append2) simp
  ultimately show ?thesis by (simp add: strip_def lstrip_def rstrip_def)
qed

lemma takeWhile_shorter: "length (takeWhile P xs) < length xs \<longleftrightarrow> (\<exists>x\<in>set xs. \<not> P x)"
  by (induction xs) auto

text \<open>The lookahead of the code holds exactly where a marker stands.\<close>

lemma marker_here_iff:
  "marker_here s \<longleftrightarrow> (\<exists>name rest. name \<noteq> [] \<and> RBR \<notin> set name \<and> s = LBR # name @ RBR # rest)"
proof
  assume m: "marker_here s"
  then obtain cs where s: "s = LBR # cs" by (cases s) (auto simp: marker_here_def)
  let ?name = "takeWhile (\<lambda>x. x \<noteq> RBR) cs"
  let ?rest = "dropWhile (\<lambda>x. x \<noteq> RBR) cs"
  from m s have n: "?name \<noteq> []" "length ?name < length cs" by (simp_all add: marker_here_def)
  have "?rest \<noteq> []"
    using n(2) by (simp add: takeWhile_shorter dropWhile_eq_Nil_conv)
  then have "hd ?rest = RBR" using hd_dropWhile [of "\<lambda>x. x \<noteq> RBR" cs] by simp
  then have "?rest = RBR # tl ?rest" using \<open>?rest \<noteq> []\<close> by (cases ?rest) auto
  then have "cs = ?name @ RBR # tl ?rest" by (metis takeWhile_dropWhile_id)
  moreover have "RBR \<notin> set ?name" by (auto dest: set_takeWhileD)
  ultimately show "\<exists>name rest. name \<noteq> [] \<and> RBR \<notin> set name \<and> s = LBR # name @ RBR # rest"
    using n(1) s by blast
next
  assume "\<exists>name rest. name \<noteq> [] \<and> RBR \<notin> set name \<and> s = LBR # name @ RBR # rest"
  then obtain name rest where a: "name \<noteq> []" "RBR \<notin> set name" "s = LBR # name @ RBR # rest"
    by blast
  have "takeWhile (\<lambda>x. x \<noteq> RBR) (name @ RBR # rest) = name"
    using a(2) by (auto simp: takeWhile_tail)
  then show "marker_here s" using a by (simp add: marker_here_def)
qed

lemma bracket_here_marker: "bracket_here s = marker_here s"
proof (cases s)
  case Nil
  then show ?thesis by (simp add: marker_here_def)
next
  case (Cons c cs)
  show ?thesis
  proof (cases cs)
    case Nil
    with Cons show ?thesis by (simp add: marker_here_def)
  next
    case (Cons d ds)
    show ?thesis
    proof (cases "d = RBR")
      case True
      with Cons \<open>s = c # cs\<close> show ?thesis by (simp add: marker_here_def)
    next
      case False
      have "RBR \<in> set ds \<longleftrightarrow> length (takeWhile (\<lambda>x. x \<noteq> RBR) ds) < length ds"
        by (auto simp: takeWhile_shorter)
      with False Cons \<open>s = c # cs\<close> show ?thesis by (simp add: marker_here_def)
    qed
  qed
qed

lemma marker_here_LBR: "marker_here (c # cs) \<Longrightarrow> c = LBR"
  by (simp add: marker_here_def)

lemma not_isspace_LBR: "\<not> isspace LBR"
  by (simp add: isspace_def LBR_def)

lemma until_marker_spaces:
  "until_marker x = takeWhile isspace x @ until_marker (dropWhile isspace x)"
proof (induction x)
  case Nil
  show ?case by simp
next
  case (Cons c cs)
  show ?case
  proof (cases "isspace c")
    case True
    then have "\<not> marker_here (c # cs)" using marker_here_LBR not_isspace_LBR by blast
    then show ?thesis using True Cons by simp
  next
    case False
    then show ?thesis by simp
  qed
qed

lemma until_marker_lazy_group:
  "until_marker y = lazy_group y \<or> until_marker y = lazy_group y @ [10]"
proof (induction y)
  case Nil
  show ?case by simp
next
  case (Cons c cs)
  show ?case
  proof (cases "marker_here (c # cs)")
    case True
    then show ?thesis by (simp add: bracket_here_marker)
  next
    case nb: False
    show ?thesis
    proof (cases "at_end (c # cs)")
      case True
      then have "c = 10" "cs = []" by (simp_all add: at_end_def)
      then show ?thesis using nb by (simp add: at_end_def bracket_here_marker)
    next
      case False
      have "until_marker (c # cs) = c # until_marker cs" using nb by simp
      moreover have "lazy_group (c # cs) = c # lazy_group cs"
        using nb False by (simp add: bracket_here_marker)
      ultimately show ?thesis using Cons by (simp only: append_Cons list.inject simp_thms)
    qed
  qed
qed

lemma isspace_LF: "isspace 10"
  by (simp add: isspace_def)

lemma strip_lazy_group: "strip (lazy_group (dropWhile isspace x)) = strip (until_marker x)"
proof -
  let ?y = "dropWhile isspace x"
  have "\<forall>c\<in>set (takeWhile isspace x). isspace c" by (auto dest: set_takeWhileD)
  then have "strip (takeWhile isspace x @ until_marker ?y) = strip (until_marker ?y)"
    by (rule strip_spaces_left)
  then have a: "strip (until_marker x) = strip (until_marker ?y)"
    using until_marker_spaces [of x] by simp
  have "strip (lazy_group ?y @ [10]) = strip (lazy_group ?y)"
    by (rule strip_spaces_right) (simp add: isspace_LF)
  then have "strip (until_marker ?y) = strip (lazy_group ?y)"
    using until_marker_lazy_group [of ?y] by (elim disjE) simp_all
  with a show ?thesis by simp
qed

lemma extract_section_until_marker:
  "extract_section s tag =
     (case after_tag tag s of None \<Rightarrow> [] | Some rest \<Rightarrow> strip (until_marker rest))"
  by (simp add: extract_section_def strip_lazy_group split: option.splits)

lemma occurs_at_Cons_Suc: "occurs_at m (c # cs) (Suc i) = occurs_at m cs i"
  by (simp add: occurs_at_def)

lemma occurs_at_0: "occurs_at (marker tag) s 0 = prefix (LBR # tag @ [RBR]) s"
  by (simp add: occurs_at_def marker_def)

lemma after_tag_absent:
  "\<forall>i<length s. \<not> occurs_at (marker tag) s i \<Longrightarrow> after_tag tag s = None"
proof (induction s)
  case Nil
  show ?case by simp
next
  case (Cons c cs)
  from Cons.prems have "\<not> occurs_at (marker tag) (c # cs) 0" by simp
  then have np: "\<not> prefix (LBR # tag @ [RBR]) (c # cs)" unfolding occurs_at_0 .
  have "\<forall>i<length cs. \<not> occurs_at (marker tag) cs i"
  proof (intro allI impI)
    fix i
    assume "i < length cs"
    then have "\<not> occurs_at (marker tag) (c # cs) (Suc i)" using Cons.prems by simp
    then show "\<not> occurs_at (marker tag) cs i" unfolding occurs_at_Cons_Suc .
  qed
  then have "after_tag tag cs = None" by (rule Cons.IH)
  moreover have "after_tag tag (c # cs) = after_tag tag cs"
    by (subst after_tag.simps) (simp only: np if_False)
  ultimately show ?case by simp
qed

lemma after_tag_first:
  "occurs_at (marker tag) s i \<Longrightarrow> \<forall>j<i. \<not> occurs_at (marker tag) s j \<Longrightarrow>
   after_tag tag s = Some (drop (i + length tag + 2) s)"
proof (induction s arbitrary: i)
  case Nil
  then show ?case by (simp add: occurs_at_def marker_def)
next
  case (Cons c cs)
  show ?case
  proof (cases i)
    case 0
    with Cons.prems(1) have "prefix (LBR # tag @ [RBR]) (c # cs)" by (simp only: occurs_at_0)
    then show ?thesis using 0 by simp
  next
    case (Suc k)
    with Cons.prems(2) have "\<not> occurs_at (marker tag) (c # cs) 0" by simp
    then have np: "\<not> prefix (LBR # tag @ [RBR]) (c # cs)" unfolding occurs_at_0 .
    have k: "occurs_at (marker tag) cs k"
      using Cons.prems(1) Suc by (simp add: occurs_at_Cons_Suc)
    have "\<forall>j<k. \<not> occurs_at (marker tag) cs j"
    proof (intro allI impI)
      fix j
      assume "j < k"
      then have "\<not> occurs_at (marker tag) (c # cs) (Suc j)" using Cons.prems(2) Suc by simp
      then show "\<not> occurs_at (marker tag) cs j" unfolding occurs_at_Cons_Suc .
    qed
    with Cons.IH [OF k] have "after_tag tag cs = Some (drop (k + length tag + 2) cs)" by simp
    moreover have "after_tag tag (c # cs) = after_tag tag cs"
      by (subst after_tag.simps) (simp only: np if_False)
    ultimately show ?thesis using Suc by simp
  qed
qed

lemma render_Nil: "render [] = []"
  by (simp add: render_def)

lemma render_Cons: "render ((t, c) # secs) = LBR # t @ RBR # c @ render secs"
  by (simp add: render_def)

lemma LBR_neq_RBR: "LBR \<noteq> RBR"
  by (simp add: LBR_def RBR_def)

lemma no_open_bracket_free:
  "LBR \<notin> set xs \<Longrightarrow> no_open_bracket (xs @ ys) = no_open_bracket ys"
proof (induction xs)
  case Nil
  show ?case by simp
next
  case (Cons a as)
  then have a: "a \<noteq> LBR" and ih: "no_open_bracket (as @ ys) = no_open_bracket ys" by auto
  show ?case
  proof (cases "as @ ys")
    case Nil
    then show ?thesis using a by simp
  next
    case (Cons d ds)
    then have "no_open_bracket (a # as @ ys) = no_open_bracket (as @ ys)" using a by simp
    then show ?thesis using ih by simp
  qed
qed

text \<open>No tag occurs in a text without open bracket.\<close>

lemma after_tag_skip:
  "plain_tag t \<Longrightarrow> no_open_bracket pre \<Longrightarrow> after_tag t (pre @ rest) = after_tag t rest"
proof (induction pre rule: no_open_bracket.induct)
  case 1
  show ?case by simp
next
  case (2 c)
  then have "c \<noteq> LBR" by simp
  then have "\<not> prefix (LBR # t @ [RBR]) (c # rest)" by simp
  then have "after_tag t (c # rest) = after_tag t rest"
    by (subst after_tag.simps) (simp only: if_False)
  then show ?case by simp
next
  case (3 c d cs)
  obtain a as where t: "t = a # as" "a \<noteq> RBR"
    using "3.prems"(1) by (cases t) (auto simp: plain_tag_def)
  have "\<not> prefix (LBR # t @ [RBR]) (c # d # cs @ rest)"
  proof (cases "c = LBR")
    case True
    then have "d = RBR" using "3.prems"(2) by simp
    then show ?thesis using t by simp
  next
    case False
    then show ?thesis by simp
  qed
  then have "after_tag t (c # d # cs @ rest) = after_tag t (d # cs @ rest)"
    by (subst after_tag.simps) (simp only: if_False)
  moreover have "after_tag t ((d # cs) @ rest) = after_tag t rest"
    using "3.prems" by (intro "3.IH") simp_all
  ultimately show ?case by simp
qed

lemma after_tag_here: "after_tag t (LBR # t @ RBR # rest) = Some rest"
  by simp

lemma prefix_tag_eq:
  "RBR \<notin> set t \<Longrightarrow> RBR \<notin> set t' \<Longrightarrow> prefix (t @ [RBR]) (t' @ RBR # rest) \<Longrightarrow> t = t'"
proof (induction t arbitrary: t')
  case Nil
  then show ?case by (cases t') auto
next
  case (Cons a as)
  then show ?case by (cases t') auto
qed

lemma after_tag_other:
  assumes "t \<noteq> t'" "plain_tag t" "plain_tag t'" "no_open_bracket c'"
  shows "after_tag t (LBR # t' @ RBR # c' @ rest) = after_tag t rest"
proof -
  have r: "RBR \<notin> set t" "RBR \<notin> set t'" "LBR \<notin> set t'"
    using assms(2,3) by (simp_all add: plain_tag_def)
  have "\<not> prefix (t @ [RBR]) (t' @ RBR # c' @ rest)"
    using prefix_tag_eq [OF r(1,2)] assms(1) by blast
  then have "\<not> prefix (LBR # t @ [RBR]) (LBR # t' @ RBR # c' @ rest)" by simp
  then have "after_tag t (LBR # t' @ RBR # c' @ rest) = after_tag t (t' @ RBR # c' @ rest)"
    by (subst after_tag.simps) (simp only: if_False)
  also have "\<dots> = after_tag t (((t' @ [RBR]) @ c') @ rest)" by simp
  also have "\<dots> = after_tag t rest"
  proof (rule after_tag_skip [OF assms(2)])
    have "LBR \<notin> set (t' @ [RBR])" using r(3) LBR_neq_RBR by simp
    then have "no_open_bracket ((t' @ [RBR]) @ c') = no_open_bracket c'"
      by (rule no_open_bracket_free)
    then show "no_open_bracket ((t' @ [RBR]) @ c')" using assms(4) by blast
  qed
  finally show ?thesis .
qed

lemma after_tag_render:
  assumes "distinct (map fst secs)"
    and "\<forall>(t', c')\<in>set secs. plain_tag t' \<and> no_open_bracket c'"
    and "(t, c) \<in> set secs"
  shows "\<exists>rest. after_tag t (render secs) = Some (c @ render rest) \<and> set rest \<subseteq> set secs"
  using assms
proof (induction secs)
  case Nil
  then show ?case by simp
next
  case (Cons p secs)
  obtain t' c' where p: "p = (t', c')" by (cases p)
  show ?case
  proof (cases "t' = t")
    case True
    with Cons.prems(1,3) p have "c' = c" by (force simp: image_iff)
    with True p have "after_tag t (render (p # secs)) = Some (c @ render secs)"
      by (simp add: render_Cons)
    then show ?thesis by auto
  next
    case False
    with Cons.prems(3) p have mem: "(t, c) \<in> set secs" by auto
    have pt: "plain_tag t" "plain_tag t'" "no_open_bracket c'"
      using Cons.prems(2) mem p by auto
    have "after_tag t (render (p # secs)) = after_tag t (render secs)"
      unfolding p render_Cons using False pt
      by (intro after_tag_other) auto
    moreover have "\<exists>rest. after_tag t (render secs) = Some (c @ render rest) \<and> set rest \<subseteq> set secs"
      using Cons.prems mem by (intro Cons.IH) auto
    ultimately show ?thesis by auto
  qed
qed

lemma marker_here_render:
  assumes "rest \<noteq> []" "\<forall>(t', c')\<in>set rest. plain_tag t'"
  shows "marker_here (render rest)"
proof -
  obtain t' c' r where rest: "rest = (t', c') # r" using assms(1) by (cases rest) auto
  with assms(2) have "plain_tag t'" by auto
  then have "t' \<noteq> []" "RBR \<notin> set t'" by (simp_all add: plain_tag_def)
  then show ?thesis unfolding rest render_Cons marker_here_iff by blast
qed

lemma until_marker_content:
  "no_open_bracket c \<Longrightarrow> r = [] \<or> marker_here r \<Longrightarrow> until_marker (c @ r) = c"
proof (induction c rule: no_open_bracket.induct)
  case 1
  then show ?case by (cases r) auto
next
  case (2 c)
  then have "\<not> marker_here (c # r)" using marker_here_LBR by auto
  moreover have "until_marker r = []" using "2.prems"(2) by (cases r) auto
  ultimately show ?case by simp
next
  case (3 c d cs)
  have "\<not> marker_here (c # d # cs @ r)"
  proof (cases "c = LBR")
    case True
    then have "d = RBR" using "3.prems"(1) by simp
    then show ?thesis by (simp add: marker_here_def)
  next
    case False
    then show ?thesis using marker_here_LBR by blast
  qed
  moreover have "until_marker ((d # cs) @ r) = d # cs"
    using "3.prems" by (intro "3.IH") simp_all
  ultimately show ?case by simp
qed

lemma extract_section_render:
  assumes "distinct (map fst secs)"
    and "\<forall>(t', c')\<in>set secs. plain_tag t' \<and> no_open_bracket c'"
    and "no_open_bracket pre"
    and "(t, c) \<in> set secs"
  shows "extract_section (pre @ render secs) t = strip c"
proof -
  from after_tag_render [OF assms(1,2,4)] obtain rest where
    rest: "after_tag t (render secs) = Some (c @ render rest)" "set rest \<subseteq> set secs"
    by blast
  have pt: "plain_tag t" using assms(2,4) by auto
  have "after_tag t (pre @ render secs) = Some (c @ render rest)"
    using after_tag_skip [OF pt assms(3)] rest(1) by simp
  moreover have "no_open_bracket c" using assms(2,4) by auto
  moreover have "render rest = [] \<or> marker_here (render rest)"
  proof (cases "rest = []")
    case True
    then show ?thesis by (simp add: render_Nil)
  next
    case False
    moreover have "\<forall>(t', c')\<in>set rest. plain_tag t'" using rest(2) assms(2) by auto
    ultimately show ?thesis using marker_here_render by blast
  qed
  ultimately show ?thesis
    by (simp add: extract_section_until_marker until_marker_content)
qed

lemma nine_tags_plain: "t \<in> set nine_tags \<Longrightarrow> plain_tag t"
  by (auto simp: nine_tags_def plain_tag_def ascii_def LBR_def RBR_def)

lemma well_formed_section:
  assumes "well_formed secs" "no_open_bracket pre" "(t, c) \<in> set secs"
  shows "extract_section (pre @ render secs) t = strip c"
proof -
  have d: "distinct (map fst secs)" using assms(1) by (simp add: well_formed_def)
  have "\<forall>(t', c')\<in>set secs. plain_tag t' \<and> no_open_bracket c'"
  proof (clarify, intro conjI)
    fix t' c'
    assume m: "(t', c') \<in> set secs"
    then have "t' \<in> set (map fst secs)" by force
    then have "t' \<in> set nine_tags" using assms(1) by (simp add: well_formed_def)
    then show "plain_tag t'" by (rule nine_tags_plain)
    show "no_open_bracket c'" using assms(1) m by (auto simp: well_formed_def list_all_iff)
  qed
  with d show ?thesis using assms(2,3) by (rule extract_section_render)
qed

lemma well_formed_content:
  assumes "well_formed secs" "no_open_bracket pre" "t \<in> set nine_tags"
  shows "extract_section (pre @ render secs) t = content secs t"
proof -
  have "t \<in> set (map fst secs)" using assms(1,3) by (simp add: well_formed_def)
  then obtain c where c: "(t, c) \<in> set secs" by auto
  moreover have "distinct (map fst secs)" using assms(1) by (simp add: well_formed_def)
  ultimately have "map_of secs t = Some c" by simp
  then show ?thesis using well_formed_section [OF assms(1,2) c] by (simp add: content_def)
qed

lemma well_formed_not_blank:
  assumes "well_formed secs"
  shows "\<not> list_all isspace (pre @ render secs)"
proof -
  have "ascii ''Risk Level'' \<in> set (map fst secs)"
    using assms by (simp add: well_formed_def nine_tags_def)
  then obtain c where "(ascii ''Risk Level'', c) \<in> set secs" by auto
  then have "LBR \<in> set (render secs)" by (force simp: render_def)
  then show ?thesis using not_isspace_LBR by (auto simp: list_all_iff)
qed

lemma nine_tags_mem:
  "ascii ''Credibility Score'' \<in> set nine_tags" "ascii ''Risk Level'' \<in> set nine_tags"
  "ascii ''Risk Reason'' \<in> set nine_tags" "ascii ''Medical Accuracy'' \<in> set nine_tags"
  "ascii ''Logical Fallacies'' \<in> set nine_tags" "ascii ''Evidence Summary'' \<in> set nine_tags"
  "ascii ''Key Misconceptions'' \<in> set nine_tags" "ascii ''Scientific Rebuttal'' \<in> set nine_tags"
  "ascii ''Expert Recommendation'' \<in> set nine_tags"
  by (simp_all add: nine_tags_def)

lemma example_sections_well_formed: "well_formed example_sections"
proof -
  have "distinct (map fst example_sections)"
    by (simp add: example_sections_def ascii_def)
  moreover have "set (map fst example_sections) = set nine_tags"
    unfolding example_sections_def nine_tags_def by (simp add: insert_commute)
  moreover have "list_all (\<lambda>(t, c). no_open_bracket c) example_sections"
    by (simp add: example_sections_def ascii_def LBR_def RBR_def)
  ultimately show ?thesis by (simp add: well_formed_def)
qed

text \<open>
  C2: for every text and tag, \<open>extract_section\<close> is empty when the marker of the tag
  occurs nowhere; otherwise it is the text that begins behind the first occurrence of the
  marker and ends before the next marker of any name or at the end of the text, trimmed.
  Consequently, on every well-formed text with all nine sections each section is recovered
  as its content without the surrounding white space, and the record that
  \<open>parse_model_output\<close> returns is built from these contents: the five scalar texts are
  the contents themselves (the fallback stands in for an empty one), the score, the risk
  level and the two lists are read from theirs. The record is returned whenever the
  content of the score has no run of more than 4300 digits.
\<close>

theorem extract_section_contract:
  "((\<forall>i<length s. \<not> occurs_at (marker tag) s i) \<longrightarrow> extract_section s tag = [])
   \<and> (occurs_at (marker tag) s i \<and> (\<forall>j<i. \<not> occurs_at (marker tag) s j) \<longrightarrow>
        extract_section s tag = strip (until_marker (drop (i + length (marker tag)) s)))
   \<and> (well_formed secs \<and> no_open_bracket pre \<longrightarrow>
        (\<forall>(t, c)\<in>set secs. extract_section (pre @ render secs) t = strip c)
        \<and> (parse_model_output dec (pre @ render secs) = Inr r \<longrightarrow>
             extract_score dec (content secs (ascii ''Credibility Score'')) = Inr (credibility_score r)
             \<and> risk_level r = resolve_risk risk_levels (content secs (ascii ''Risk Level''))
             \<and> risk_reason r = str_or (content secs (ascii ''Risk Reason'')) (ascii ''Not provided'')
             \<and> medical_accuracy r =
                 str_or (content secs (ascii ''Medical Accuracy'')) (take 500 (pre @ render secs))
             \<and> logical_fallacies r = extract_list_items (content secs (ascii ''Logical Fallacies''))
             \<and> evidence_summary r =
                 str_or (content secs (ascii ''Evidence Summary'')) (ascii ''No evidence description found'')
             \<and> key_misconceptions r = extract_list_items (content secs (ascii ''Key Misconceptions''))
             \<and> rebuttal r = str_or (content secs (ascii ''Scientific Rebuttal''))
                 (ascii ''Consult a healthcare professional for more information.'')
             \<and> recommendation r = str_or (content secs (ascii ''Expert Recommendation''))
                 (ascii ''For health-related information, consult a qualified healthcare provider.''))
        \<and> (digits_bounded dec (content secs (ascii ''Credibility Score'')) \<longrightarrow>
             (\<exists>r. parse_model_output dec (pre @ render secs) = Inr r)))"
proof -
  have 1: "extract_section s tag = []" if "\<forall>i<length s. \<not> occurs_at (marker tag) s i"
  proof -
    from that have "after_tag tag s = None" by (rule after_tag_absent)
    then show ?thesis by (simp add: extract_section_def)
  qed
  have 2: "extract_section s tag = strip (until_marker (drop (i + length (marker tag)) s))"
    if "occurs_at (marker tag) s i \<and> (\<forall>j<i. \<not> occurs_at (marker tag) s j)"
  proof -
    from that have "after_tag tag s = Some (drop (i + length tag + 2) s)"
      using after_tag_first by blast
    then show ?thesis by (simp add: extract_section_until_marker marker_def)
  qed
  have 3: "\<forall>(t, c)\<in>set secs. extract_section (pre @ render secs) t = strip c"
    if "well_formed secs \<and> no_open_bracket pre"
    using that well_formed_section by blast
  have sec: "extract_section (pre @ render secs) t = content secs t"
    if "well_formed secs \<and> no_open_bracket pre" "t \<in> set nine_tags" for t
    using that well_formed_content by blast
  have 4: "extract_score dec (content secs (ascii ''Credibility Score'')) = Inr (credibility_score r)
             \<and> risk_level r = resolve_risk risk_levels (content secs (ascii ''Risk Level''))
             \<and> risk_reason r = str_or (content secs (ascii ''Risk Reason'')) (ascii ''Not provided'')
             \<and> medical_accuracy r =
                 str_or (content secs (ascii ''Medical Accuracy'')) (take 500 (pre @ render secs))
             \<and> logical_fallacies r = extract_list_items (content secs (ascii ''Logical Fallacies''))
             \<and> evidence_summary r =
                 str_or (content secs (ascii ''Evidence Summary'')) (ascii ''No evidence description found'')
             \<and> key_misconceptions r = extract_list_items (content secs (ascii ''Key Misconceptions''))
             \<and> rebuttal r = str_or (content secs (ascii ''Scientific Rebuttal''))
                 (ascii ''Consult a healthcare professional for more information.'')
             \<and> recommendation r = str_or (content secs (ascii ''Expert Recommendation''))
                 (ascii ''For health-related information, consult a qualified healthcare provider.'')"
    if wf: "well_formed secs \<and> no_open_bracket pre"
      and r: "parse_model_output dec (pre @ render secs) = Inr r"
  proof -
    have nb: "\<not> list_all isspace (pre @ render secs)" using wf well_formed_not_blank by blast
    note f = parse_model_output_record(1,3,4,5,6,7,8,9,10) [OF nb r]
    show ?thesis
      using f
      unfolding sec [OF wf nine_tags_mem(1)] sec [OF wf nine_tags_mem(2)]
        sec [OF wf nine_tags_mem(3)] sec [OF wf nine_tags_mem(4)] sec [OF wf nine_tags_mem(5)]
        sec [OF wf nine_tags_mem(6)] sec [OF wf nine_tags_mem(7)] sec [OF wf nine_tags_mem(8)]
        sec [OF wf nine_tags_mem(9)]
      by blast
  qed
  have 5: "\<exists>r. parse_model_output dec (pre @ render secs) = Inr r"
    if wf: "well_formed secs \<and> no_open_bracket pre"
      and b: "digits_bounded dec (content secs (ascii ''Credibility Score''))"
  proof -
    have "score_digits_bounded dec (pre @ render secs)"
      using b by (simp add: score_digits_bounded_def sec [OF wf nine_tags_mem(1)])
    then show ?thesis by (rule parse_model_output_returns)
  qed
  from 1 2 3 4 5 show ?thesis by blast
qed

lemmas marker_eval =
  occurs_at_def marker_def marker_here_def LBR_def RBR_def ascii_def strip_def lstrip_def
  rstrip_def isspace_def

theorem extract_section_contract_witness:
  "extract_section (ascii ''no tag here'') (ascii ''Risk Level'') = []
   \<and> extract_section (ascii ''so [A] one [] two [B] three'') (ascii ''A'') = ascii ''one [] two''
   \<and> extract_section (ascii ''so [A] one [ two'') (ascii ''A'') = ascii ''one [ two''
   \<and> extract_section (ascii ''so [A] one [ two ] three [B]'') (ascii ''A'') = ascii ''one''
   \<and> extract_section (render example_sections) (ascii ''Risk Reason'')
       = ascii ''No trial [] supports it.''
   \<and> (\<exists>r. parse_model_output ascii_decimal (render example_sections) = Inr r
        \<and> credibility_score r = 12
        \<and> risk_level r = ascii ''Dangerous''
        \<and> risk_reason r = ascii ''No trial [] supports it.''
        \<and> medical_accuracy r = ascii ''Wrong.''
        \<and> logical_fallacies r = [ascii ''anecdote'', ascii ''appeal to nature'']
        \<and> evidence_summary r = ascii ''None found.''
        \<and> key_misconceptions r = []
        \<and> rebuttal r = ascii ''Water is not a cure.''
        \<and> recommendation r = ascii ''See a doctor.'')"
proof -
  have h1: "\<forall>i<length (ascii ''no tag here''). \<not> occurs_at (marker (ascii ''Risk Level'')) (ascii ''no tag here'') i"
    by (simp add: ascii_def occurs_at_def marker_def LBR_def RBR_def All_less_Suc)
  have h2: "occurs_at (marker (ascii ''A'')) (ascii ''so [A] one [] two [B] three'') 3
      \<and> (\<forall>j<3. \<not> occurs_at (marker (ascii ''A'')) (ascii ''so [A] one [] two [B] three'') j)"
    "occurs_at (marker (ascii ''A'')) (ascii ''so [A] one [ two'') 3
      \<and> (\<forall>j<3. \<not> occurs_at (marker (ascii ''A'')) (ascii ''so [A] one [ two'') j)"
    "occurs_at (marker (ascii ''A'')) (ascii ''so [A] one [ two ] three [B]'') 3
      \<and> (\<forall>j<3. \<not> occurs_at (marker (ascii ''A'')) (ascii ''so [A] one [ two ] three [B]'') j)"
    by (simp_all add: ascii_def occurs_at_def marker_def LBR_def RBR_def All_less_Suc numeral_3_eq_3)
  have c2: "strip (until_marker (drop (3 + length (marker (ascii ''A''))) (ascii ''so [A] one [] two [B] three'')))
      = ascii ''one [] two''"
    "strip (until_marker (drop (3 + length (marker (ascii ''A''))) (ascii ''so [A] one [ two'')))
      = ascii ''one [ two''"
    "strip (until_marker (drop (3 + length (marker (ascii ''A''))) (ascii ''so [A] one [ two ] three [B]'')))
      = ascii ''one''"
    by (simp_all add: marker_eval)
  have h3: "well_formed example_sections \<and> no_open_bracket []"
    using example_sections_well_formed by simp
  have m: "(ascii ''Risk Reason'', ascii '' No trial [] supports it.'' @ [10, 10]) \<in> set example_sections"
    by (simp add: example_sections_def)
  have c: "content example_sections (ascii ''Credibility Score'') = ascii ''12/100''"
    "content example_sections (ascii ''Risk Level'') = ascii ''Dangerous''"
    "content example_sections (ascii ''Risk Reason'') = ascii ''No trial [] supports it.''"
    "content example_sections (ascii ''Medical Accuracy'') = ascii ''Wrong.''"
    "content example_sections (ascii ''Logical Fallacies'') =
       ascii ''- anecdote'' @ [10] @ ascii ''- appeal to nature''"
    "content example_sections (ascii ''Evidence Summary'') = ascii ''None found.''"
    "content example_sections (ascii ''Key Misconceptions'') = ascii ''None''"
    "content example_sections (ascii ''Scientific Rebuttal'') = ascii ''Water is not a cure.''"
    "content example_sections (ascii ''Expert Recommendation'') = ascii ''See a doctor.''"
    by (simp_all add: content_def example_sections_def ascii_def strip_def lstrip_def rstrip_def
        isspace_def)
  have v: "extract_score ascii_decimal (ascii ''12/100'') = Inr 12"
    "resolve_risk risk_levels (ascii ''Dangerous'') = ascii ''Dangerous''"
    "extract_list_items (ascii ''- anecdote'' @ [10] @ ascii ''- appeal to nature'')
       = [ascii ''anecdote'', ascii ''appeal to nature'']"
    "extract_list_items (ascii ''None'') = []"
    by (simp_all add: score_eval risk_levels_def list_eval text_eval)
  have b: "digits_bounded ascii_decimal (ascii ''12/100'')" by (simp add: score_eval)
  have s: "strip (ascii '' No trial [] supports it.'' @ [10, 10]) = ascii ''No trial [] supports it.''"
    by (simp add: text_eval)
  have n: "str_or (ascii ''No trial [] supports it.'') d = ascii ''No trial [] supports it.''"
    "str_or (ascii ''Wrong.'') d = ascii ''Wrong.''"
    "str_or (ascii ''None found.'') d = ascii ''None found.''"
    "str_or (ascii ''Water is not a cure.'') d = ascii ''Water is not a cure.''"
    "str_or (ascii ''See a doctor.'') d = ascii ''See a doctor.''" for d
    by (simp_all add: str_or_def ascii_def)
  from extract_section_contract [of "ascii ''no tag here''" "ascii ''Risk Level''"] h1
  have g1: "extract_section (ascii ''no tag here'') (ascii ''Risk Level'') = []"
    by blast
  from extract_section_contract [of "ascii ''so [A] one [] two [B] three''" "ascii ''A''" 3] h2(1)
  have "extract_section (ascii ''so [A] one [] two [B] three'') (ascii ''A'') =
    strip (until_marker (drop (3 + length (marker (ascii ''A''))) (ascii ''so [A] one [] two [B] three'')))"
    by blast
  then have g2: "extract_section (ascii ''so [A] one [] two [B] three'') (ascii ''A'') = ascii ''one [] two''"
    by (simp only: c2)
  from extract_section_contract [of "ascii ''so [A] one [ two''" "ascii ''A''" 3] h2(2)
  have "extract_section (ascii ''so [A] one [ two'') (ascii ''A'') =
    strip (until_marker (drop (3 + length (marker (ascii ''A''))) (ascii ''so [A] one [ two'')))"
    by blast
  then have g3: "extract_section (ascii ''so [A] one [ two'') (ascii ''A'') = ascii ''one [ two''"
    by (simp only: c2)
  from extract_section_contract [of "ascii ''so [A] one [ two ] three [B]''" "ascii ''A''" 3] h2(3)
  have "extract_section (ascii ''so [A] one [ two ] three [B]'') (ascii ''A'') =
    strip (until_marker (drop (3 + length (marker (ascii ''A''))) (ascii ''so [A] one [ two ] three [B]'')))"
    by blast
  then have g4: "extract_section (ascii ''so [A] one [ two ] three [B]'') (ascii ''A'') = ascii ''one''"
    by (simp only: c2)
  from extract_section_contract [of _ _ _ example_sections "[]" ascii_decimal] h3
  have g5: "\<forall>(t, c)\<in>set example_sections. extract_section ([] @ render example_sections) t = strip c"
    and "digits_bounded ascii_decimal (content example_sections (ascii ''Credibility Score'')) \<longrightarrow>
             (\<exists>r. parse_model_output ascii_decimal ([] @ render example_sections) = Inr r)"
    by blast+
  then obtain r where r: "parse_model_output ascii_decimal ([] @ render example_sections) = Inr r"
    using b c(1) by auto
  from g5 m s have g5': "extract_section (render example_sections) (ascii ''Risk Reason'')
       = ascii ''No trial [] supports it.''"
    by force
  from extract_section_contract [of _ _ _ example_sections "[]" ascii_decimal r] h3 r
  have "extract_score ascii_decimal (content example_sections (ascii ''Credibility Score'')) = Inr (credibility_score r)
             \<and> risk_level r = resolve_risk risk_levels (content example_sections (ascii ''Risk Level''))
             \<and> risk_reason r = str_or (content example_sections (ascii ''Risk Reason'')) (ascii ''Not provided'')
             \<and> medical_accuracy r =
                 str_or (content example_sections (ascii ''Medical Accuracy'')) (take 500 ([] @ render example_sections))
             \<and> logical_fallacies r = extract_list_items (content example_sections (ascii ''Logical Fallacies''))
             \<and> evidence_summary r =
                 str_or (content example_sections (ascii ''Evidence Summary'')) (ascii ''No evidence description found'')
             \<and> key_misconceptions r = extract_list_items (content example_sections (ascii ''Key Misconceptions''))
             \<and> rebuttal r = str_or (content example_sections (ascii ''Scientific Rebuttal''))
                 (ascii ''Consult a healthcare professional for more information.'')
             \<and> recommendation r = str_or (content example_sections (ascii ''Expert Recommendation''))
                 (ascii ''For health-related information, consult a qualified healthcare provider.'')"
    by blast
  then have "credibility_score r = 12
        \<and> risk_level r = ascii ''Dangerous''
        \<and> risk_reason r = ascii ''No trial [] supports it.''
        \<and> medical_accuracy r = ascii ''Wrong.''
        \<and> logical_fallacies r = [ascii ''anecdote'', ascii ''appeal to nature'']
        \<and> evidence_summary r = ascii ''None found.''
        \<and> key_misconceptions r = []
        \<and> rebuttal r = ascii ''Water is not a cure.''
        \<and> recommendation r = ascii ''See a doctor.''"
    unfolding c v n by auto
  with r have g6: "\<exists>r. parse_model_output ascii_decimal (render example_sections) = Inr r
        \<and> credibility_score r = 12
        \<and> risk_level r = ascii ''Dangerous''
        \<and> risk_reason r = ascii ''No trial [] supports it.''
        \<and> medical_accuracy r = ascii ''Wrong.''
        \<and> logical_fallacies r = [ascii ''anecdote'', ascii ''appeal to nature'']
        \<and> evidence_summary r = ascii ''None found.''
        \<and> key_misconceptions r = []
        \<and> rebuttal r = ascii ''Water is not a cure.''
        \<and> recommendation r = ascii ''See a doctor.''"
    by auto
  from g1 g2 g3 g4 g5' g6 show ?thesis by blast
qed

section \<open>Properties of the literature records\<close>

lemmas xml_eval =
  leaf_def node_def named_author_def findall_desc_def findall_child_def findall_desc_child_def
  findtext_def find_first_def attr_text_def joined_itertext_def slice_to_def
  truthy_str_def str_of_def last_name_of_def initials_of_def article_authors_def
  parse_article_def parse_pubmed_xml_def Let_def

text \<open>The guards of the body hold on every element tree: no step of it raises.\<close>

lemma guarded_attr_text:
  "(if find_first found \<noteq> None then attr_text (find_first found) else Inr d) =
     Inr (case found of [] \<Rightarrow> d | el # _ \<Rightarrow> el_text el)"
  by (cases found) (simp_all add: find_first_def attr_text_def)

lemma guarded_itertext:
  "(if find_first found \<noteq> None then joined_itertext (find_first found) else Inr d) =
     Inr (case found of [] \<Rightarrow> d | el # _ \<Rightarrow> itertext el)"
  by (cases found) (simp_all add: find_first_def joined_itertext_def)

lemma slice_findtext:
  "slice_to n (findtext found (Some d)) = Inr (take n (str_of (findtext found (Some d))))"
  by (simp add: slice_to_def findtext_def str_of_def split: list.splits option.splits)

lemma guarded_year:
  "(if truthy_str y then Inr (str_of y)
    else (case slice_to 4 (findtext found (Some [])) of
            Inl e \<Rightarrow> Inl e
          | Inr year2 \<Rightarrow> Inr (if year2 \<noteq> [] then year2 else d))) =
   Inr (if truthy_str y then str_of y
        else if take 4 (str_of (findtext found (Some []))) \<noteq> []
             then take 4 (str_of (findtext found (Some []))) else d)"
  by (simp only: slice_findtext sum.case if_distrib [of Inr, symmetric])

lemma parse_article_eq:
  "parse_article art =
     Inr \<lparr> title = (case findall_desc (ascii ''ArticleTitle'') art of
                      [] \<Rightarrow> ascii ''N/A'' | el # _ \<Rightarrow> itertext el),
           authors = (if article_authors art \<noteq> [] then join (ascii '', '') (article_authors art)
                      else ascii ''Unknown''),
           journal = str_of (findtext
             (findall_desc_child (ascii ''Journal'') (ascii ''Title'') art)
             (Some (ascii ''Unknown Journal''))),
           year =
             (if truthy_str (findtext (findall_desc_child (ascii ''PubDate'') (ascii ''Year'') art) None)
              then str_of (findtext (findall_desc_child (ascii ''PubDate'') (ascii ''Year'') art) None)
              else if take 4 (str_of (findtext
                     (findall_desc_child (ascii ''PubDate'') (ascii ''MedlineDate'') art) (Some []))) \<noteq> []
              then take 4 (str_of (findtext
                     (findall_desc_child (ascii ''PubDate'') (ascii ''MedlineDate'') art) (Some [])))
              else ascii ''N/A''),
           pmid = (case findall_desc (ascii ''PMID'') art of [] \<Rightarrow> Some [] | el # _ \<Rightarrow> el_text el),
           abstract =
             (if length (take 300 (join (ascii '' '')
                    (map itertext (findall_desc (ascii ''AbstractText'') art)))) = 300
              then take 300 (join (ascii '' '')
                    (map itertext (findall_desc (ascii ''AbstractText'') art))) @ ascii ''...''
              else take 300 (join (ascii '' '')
                    (map itertext (findall_desc (ascii ''AbstractText'') art)))),
           url = (if truthy_str (case findall_desc (ascii ''PMID'') art of
                                   [] \<Rightarrow> Some [] | el # _ \<Rightarrow> el_text el)
                  then ascii ''https://pubmed.ncbi.nlm.nih.gov/'' @
                       str_of (case findall_desc (ascii ''PMID'') art of
                                 [] \<Rightarrow> Some [] | el # _ \<Rightarrow> el_text el) @ ascii ''/''
                  else []) \<rparr>"
  unfolding parse_article_def Let_def guarded_attr_text guarded_itertext guarded_year
  by (simp only: sum.case)

lemma parse_article_returns: "\<exists>x. parse_article art = Inr x"
  using parse_article_eq [of art] by blast


lemma parse_article_authors_field:
  "parse_article art = Inr x \<Longrightarrow>
   authors x = (if article_authors art \<noteq> [] then join (ascii '', '') (article_authors art)
                else ascii ''Unknown'')"
  using parse_article_eq [of art] by auto

lemma author_names_filter:
  "author_names as =
     map (\<lambda>a. strip (last_name_of a @ ascii '' '' @ initials_of a))
       (filter (\<lambda>a. last_name_of a \<noteq> []) as)"
  by (induction as) (simp_all add: Let_def)

lemma author_names_none:
  "list_all (\<lambda>a. last_name_of a = []) as \<Longrightarrow> author_names as = []"
  by (induction as) (simp_all add: Let_def)


lemma parse_records_member:
  "x \<in> set (parse_records body arts) \<longleftrightarrow> (\<exists>art\<in>set arts. body art = Inr x)"
  by (induction arts) (auto split: sum.splits)

text \<open>
  C10: every record of \<open>parse_pubmed_xml\<close> is the dictionary of an article element, and
  its authors field is built from the \<open>Author\<close> elements below the article: among the
  first three, those with a non-empty \<open>LastName\<close> give a name, the surname, a blank and the
  initials, trimmed; \<open>"et al."\<close> is appended exactly when there are more than three
  \<open>Author\<close> elements; the names are joined with \<open>", "\<close>, and the field is \<open>"Unknown"\<close> when
  there is nothing to join. So with at most three authors and no surname the field is
  \<open>"Unknown"\<close>, and with more than three and no surname among the first three it is
  \<open>"et al."\<close> alone.
\<close>

theorem parse_article_authors:
  "(parse_pubmed_xml (Inr root) = Inr entries \<and> x \<in> set entries \<longrightarrow>
      (\<exists>art\<in>set (findall_desc (ascii ''PubmedArticle'') root). parse_article art = Inr x))
   \<and> (\<exists>x. parse_article art = Inr x)
   \<and> (parse_article art = Inr x \<longrightarrow>
        authors x =
          (if map (\<lambda>a. strip (last_name_of a @ ascii '' '' @ initials_of a))
                (filter (\<lambda>a. last_name_of a \<noteq> []) (take 3 (findall_desc (ascii ''Author'') art)))
              @ (if 3 < length (findall_desc (ascii ''Author'') art) then [ascii ''et al.''] else [])
              = []
           then ascii ''Unknown''
           else join (ascii '', '')
             (map (\<lambda>a. strip (last_name_of a @ ascii '' '' @ initials_of a))
                (filter (\<lambda>a. last_name_of a \<noteq> []) (take 3 (findall_desc (ascii ''Author'') art)))
              @ (if 3 < length (findall_desc (ascii ''Author'') art) then [ascii ''et al.''] else []))))
   \<and> (parse_article art = Inr x
        \<and> length (findall_desc (ascii ''Author'') art) \<le> 3
        \<and> list_all (\<lambda>a. last_name_of a = []) (findall_desc (ascii ''Author'') art)
       \<longrightarrow> authors x = ascii ''Unknown'')
   \<and> (parse_article art = Inr x
        \<and> 3 < length (findall_desc (ascii ''Author'') art)
        \<and> list_all (\<lambda>a. last_name_of a = []) (take 3 (findall_desc (ascii ''Author'') art))
       \<longrightarrow> authors x = ascii ''et al.'')"
proof -
  let ?auths = "findall_desc (ascii ''Author'') art"
  have names: "article_authors art =
      map (\<lambda>a. strip (last_name_of a @ ascii '' '' @ initials_of a))
        (filter (\<lambda>a. last_name_of a \<noteq> []) (take 3 ?auths))
      @ (if 3 < length ?auths then [ascii ''et al.''] else [])"
    by (simp only: article_authors_def author_names_filter)
  have 1: "\<exists>art\<in>set (findall_desc (ascii ''PubmedArticle'') root). parse_article art = Inr x"
    if "parse_pubmed_xml (Inr root) = Inr entries \<and> x \<in> set entries"
    using that by (auto simp: parse_pubmed_xml_def parse_records_member)
  have 2: "\<exists>x. parse_article art = Inr x" by (rule parse_article_returns)
  have 3: "authors x =
          (if map (\<lambda>a. strip (last_name_of a @ ascii '' '' @ initials_of a))
                (filter (\<lambda>a. last_name_of a \<noteq> []) (take 3 ?auths))
              @ (if 3 < length ?auths then [ascii ''et al.''] else [])
              = []
           then ascii ''Unknown''
           else join (ascii '', '')
             (map (\<lambda>a. strip (last_name_of a @ ascii '' '' @ initials_of a))
                (filter (\<lambda>a. last_name_of a \<noteq> []) (take 3 ?auths))
              @ (if 3 < length ?auths then [ascii ''et al.''] else [])))"
    if "parse_article art = Inr x"
  proof -
    define ns where "ns = article_authors art"
    have "authors x = (if ns \<noteq> [] then join (ascii '', '') ns else ascii ''Unknown'')"
      unfolding ns_def by (rule parse_article_authors_field [OF that])
    then have "authors x = (if ns = [] then ascii ''Unknown'' else join (ascii '', '') ns)"
      by (cases "ns = []") simp_all
    then show ?thesis unfolding ns_def names .
  qed
  have 4: "authors x = ascii ''Unknown''"
    if a: "parse_article art = Inr x \<and> length ?auths \<le> 3 \<and> list_all (\<lambda>a. last_name_of a = []) ?auths"
  proof -
    from a have "take 3 ?auths = ?auths" by simp
    then have "article_authors art = []"
      using a author_names_none [of ?auths] by (simp add: article_authors_def)
    then show ?thesis using a parse_article_authors_field [of art x] by simp
  qed
  have 5: "authors x = ascii ''et al.''"
    if a: "parse_article art = Inr x \<and> 3 < length ?auths
        \<and> list_all (\<lambda>a. last_name_of a = []) (take 3 ?auths)"
  proof -
    from a have "article_authors art = [ascii ''et al.'']"
      using author_names_none [of "take 3 ?auths"] by (simp add: article_authors_def)
    then show ?thesis using a parse_article_authors_field [of art x] by simp
  qed
  from 1 2 3 4 5 show ?thesis by blast
qed


lemma findall_Author_examples:
  "findall_desc (ascii ''Author'') two_anonymous = [anonymous_author, anonymous_author]"
  "findall_desc (ascii ''Author'') four_anonymous =
     [anonymous_author, anonymous_author, anonymous_author, anonymous_author]"
  "findall_desc (ascii ''Author'') two_named = [named_author ''Smith'' ''J'', named_author ''Lee'' ''K'']"
  "findall_desc (ascii ''Author'') four_named =
     [named_author ''Smith'' ''J'', named_author ''Lee'' ''K'', named_author ''Wu'' ''L'',
      named_author ''Chen'' ''M'']"
  "last_name_of anonymous_author = []"
  by (simp_all add: two_anonymous_def four_anonymous_def two_named_def four_named_def
      anonymous_author_def xml_eval ascii_def)

lemma named_author_fields:
  "last_name_of (named_author ''Smith'' ''J'') = ascii ''Smith''"
  "initials_of (named_author ''Smith'' ''J'') = ascii ''J''"
  "last_name_of (named_author ''Lee'' ''K'') = ascii ''Lee''"
  "initials_of (named_author ''Lee'' ''K'') = ascii ''K''"
  "last_name_of (named_author ''Wu'' ''L'') = ascii ''Wu''"
  "initials_of (named_author ''Wu'' ''L'') = ascii ''L''"
  by (simp_all add: xml_eval ascii_def)

lemma named_author_names:
  "strip (ascii ''Smith'' @ ascii '' '' @ ascii ''J'') = ascii ''Smith J''"
  "strip (ascii ''Lee'' @ ascii '' '' @ ascii ''K'') = ascii ''Lee K''"
  "strip (ascii ''Wu'' @ ascii '' '' @ ascii ''L'') = ascii ''Wu L''"
  "ascii ''Smith'' \<noteq> []" "ascii ''Lee'' \<noteq> []" "ascii ''Wu'' \<noteq> []"
  by (simp_all add: text_eval)

lemma parse_good_article: "parse_article good_article = Inr good_record"
  by (simp add: good_article_def good_record_def xml_eval text_eval)

lemma parse_untitled_article: "parse_article untitled_article = Inr untitled_record"
  by (simp add: untitled_article_def untitled_record_def xml_eval text_eval)

lemma example_batch_articles:
  "findall_desc (ascii ''PubmedArticle'') example_batch = [good_article, untitled_article]"
  by (simp add: example_batch_def good_article_def untitled_article_def leaf_def node_def
      findall_desc_def ascii_def)

lemma parse_example_batch:
  "parse_pubmed_xml (Inr example_batch) = Inr [good_record, untitled_record]"
  by (simp add: parse_pubmed_xml_def example_batch_articles parse_good_article
      parse_untitled_article)

theorem parse_article_authors_witness:
  "(\<exists>x. parse_article two_anonymous = Inr x \<and> authors x = ascii ''Unknown'')
   \<and> (\<exists>x. parse_article four_anonymous = Inr x \<and> authors x = ascii ''et al.'')
   \<and> (\<exists>x. parse_article two_named = Inr x \<and> authors x = ascii ''Smith J, Lee K'')
   \<and> (\<exists>x. parse_article four_named = Inr x
          \<and> authors x = ascii ''Smith J, Lee K, Wu L, et al.'')
   \<and> parse_pubmed_xml (Inr example_batch) = Inr [good_record, untitled_record]
   \<and> (\<exists>art\<in>set (findall_desc (ascii ''PubmedArticle'') example_batch).
          parse_article art = Inr untitled_record)"
proof -
  have h1: "length (findall_desc (ascii ''Author'') two_anonymous) \<le> 3
        \<and> list_all (\<lambda>a. last_name_of a = []) (findall_desc (ascii ''Author'') two_anonymous)"
    by (simp add: findall_Author_examples)
  have h2: "3 < length (findall_desc (ascii ''Author'') four_anonymous)
        \<and> list_all (\<lambda>a. last_name_of a = []) (take 3 (findall_desc (ascii ''Author'') four_anonymous))"
    by (simp add: findall_Author_examples)
  obtain x1 where p1: "parse_article two_anonymous = Inr x1"
    using parse_article_authors [of example_batch "[]" untitled_record two_anonymous] by blast
  obtain x2 where p2: "parse_article four_anonymous = Inr x2"
    using parse_article_authors [of example_batch "[]" untitled_record four_anonymous] by blast
  obtain x3 where p3: "parse_article two_named = Inr x3"
    using parse_article_authors [of example_batch "[]" untitled_record two_named] by blast
  obtain x4 where p4: "parse_article four_named = Inr x4"
    using parse_article_authors [of example_batch "[]" untitled_record four_named] by blast
  from parse_article_authors [of example_batch "[]" x1 two_anonymous] p1 h1
  have r1: "authors x1 = ascii ''Unknown''" by blast
  from parse_article_authors [of example_batch "[]" x2 four_anonymous] p2 h2
  have r2: "authors x2 = ascii ''et al.''" by blast
  have r3: "authors x3 = ascii ''Smith J, Lee K''"
    using parse_article_authors [of example_batch "[]" x3 two_named] p3
    by (simp add: findall_Author_examples named_author_fields named_author_names)
      (simp add: ascii_def)
  have r4: "authors x4 = ascii ''Smith J, Lee K, Wu L, et al.''"
    using parse_article_authors [of example_batch "[]" x4 four_named] p4
    by (simp add: findall_Author_examples named_author_fields named_author_names)
      (simp add: ascii_def)
  have m: "untitled_record \<in> set [good_record, untitled_record]" by simp
  from parse_article_authors
    [of example_batch "[good_record, untitled_record]" untitled_record untitled_article]
    parse_example_batch m
  have r5: "\<exists>art\<in>set (findall_desc (ascii ''PubmedArticle'') example_batch).
          parse_article art = Inr untitled_record" by blast
  from p1 r1 p2 r2 p3 r3 p4 r4 r5 parse_example_batch show ?thesis by blast
qed









section \<open>Properties of the two-phase search\<close>




lemma parse_pubmed_xml_root:
  "parse_pubmed_xml (Inr root) =
     Inr (parse_records parse_article (findall_desc (ascii ''PubmedArticle'') root))"
  by (simp add: parse_pubmed_xml_def)




section \<open>Properties of the stream\<close>

lemma strip_long_claim: "strip long_claim = long_claim"
  unfolding long_claim_def
  by (rule strip_unchanged) (simp_all add: isspace_def)

lemma long_claim_not_blank: "\<not> list_all isspace long_claim"
  by (simp add: long_claim_def isspace_def list_all_iff)

text \<open>
  The only test of the body is the first thing it does: on a claim that is empty or white
  space only the run ends with \<open>ValueError\<close> and has done nothing, no model is loaded and
  no thread started; every other claim is trimmed and handed to the model whole.
\<close>

lemma analyze_health_claim_stream_validation:
  "(list_all isspace health_claim \<longrightarrow>
      analyze_health_claim_stream fragments health_claim = ([], Some ValueError))
   \<and> (\<not> list_all isspace health_claim \<longrightarrow>
      analyze_health_claim_stream fragments health_claim =
        ([LoadModel,
          ApplyChatTemplate
            [(ascii ''system'', system_text),
             (ascii ''user'', user_head @ strip health_claim @ user_tail)],
          CreateStreamer, ThreadStart] @ map Yield fragments @ [ThreadJoin],
         None))"
proof (intro conjI impI)
  assume "list_all isspace health_claim"
  then have "strip health_claim = []" by (simp only: strip_Nil_iff)
  then show "analyze_health_claim_stream fragments health_claim = ([], Some ValueError)"
    by (simp add: analyze_health_claim_stream_def)
next
  assume "\<not> list_all isspace health_claim"
  then have "strip health_claim \<noteq> []" "health_claim \<noteq> []"
    using strip_Nil_iff [of health_claim] by auto
  then show "analyze_health_claim_stream fragments health_claim =
        ([LoadModel,
          ApplyChatTemplate
            [(ascii ''system'', system_text),
             (ascii ''user'', user_head @ strip health_claim @ user_tail)],
          CreateStreamer, ThreadStart] @ map Yield fragments @ [ThreadJoin],
         None)"
    by (simp add: analyze_health_claim_stream_def build_messages_def)
qed

text \<open>
  C6: the claim is validated before any generation work starts: an empty or blank claim
  fails with an input-validation error and starts no background work, and a claim of more
  than 5000 characters is rejected or truncated before the analysis. The program does
  not do the second: on a claim of 5001 characters the run does not end with an error,
  the model is loaded and the thread started, and the message handed to the model holds
  all 5001 characters.
\<close>

theorem analyze_health_claim_stream_over_limit:
  "length long_claim = 5001
   \<and> analyze_health_claim_stream fragments long_claim =
       ([LoadModel,
         ApplyChatTemplate
           [(ascii ''system'', system_text), (ascii ''user'', user_head @ long_claim @ user_tail)],
         CreateStreamer, ThreadStart] @ map Yield fragments @ [ThreadJoin],
        None)"
proof -
  have "strip long_claim \<noteq> []" "long_claim \<noteq> []"
    by (simp_all add: strip_long_claim) (simp_all add: long_claim_def)
  then show ?thesis
    by (simp add: analyze_health_claim_stream_def build_messages_def strip_long_claim)
      (simp add: long_claim_def)
qed

end
